theory Spec2Isabelle
  imports Complex_Main "HOL-Library.Sublist"
begin

section \<open>The customer and address service of app.js\<close>

text \<open>
  app.js is an Express application with nine routes over two SQLite tables. Every route
  validates the request, runs one SQL statement (two for the listing) and answers in the
  statement's callback. The model has three layers:
  \<^item> the rows and the database file (the two tables with their AUTOINCREMENT counters);
  \<^item> the SQL statements the source issues, with the semantics the SQLite engine gives
    them under the schema of lines 22 to 38;
  \<^item> the route handlers, as functions from the request and the database to the response
    and the database after the statement.

  Scope of the request model. A field of the JSON body is a text or is absent, as the
  columns are TEXT. A text is the sequence of Unicode code points the engine receives
  (\<open>ustring\<close>); \<open>chars\<close> turns an ASCII literal into one. A route parameter \<open>:id\<close> is the
  integer its text denotes when the engine compares it with an INTEGER key. The query
  parameters \<open>page\<close> and \<open>limit\<close> are the integers their texts denote, of any size:
  JavaScript rounds them to numbers where it computes with them, and the engine takes
  64-bit integers only.
\<close>

subsection \<open>Texts\<close>

type_synonym ustring = "nat list"

definition chars :: "string \<Rightarrow> ustring" where
  "chars s = map of_char s"

subsection \<open>Rows and the database\<close>

record customer =
  c_id :: int
  first_name :: ustring
  last_name :: ustring
  phone_number :: ustring

record address =
  a_id :: int
  customer_id :: int
  address_details :: ustring
  city :: ustring
  state :: ustring
  pin_code :: ustring

text \<open>
  The tables hold their rows in rowid order, the order a scan returns them in. Each
  AUTOINCREMENT key has its counter in \<open>sqlite_sequence\<close>: the largest rowid ever given.
\<close>

record database =
  customers :: "customer list"
  addresses :: "address list"
  customers_seq :: int
  addresses_seq :: int

definition empty_database :: database where
  "empty_database = \<lparr>customers = [], addresses = [], customers_seq = 0, addresses_seq = 0\<rparr>"

subsection \<open>The connection\<close>

text \<open>
  Line 15 opens the database file and the callback creates the two tables. SQLite enforces
  foreign keys on a connection only after \<open>PRAGMA foreign_keys = ON\<close>, and off is the
  default of the engine the sqlite3 package bundles. The source never issues the pragma,
  so every statement below runs with the flag as \<open>foreign_keys\<close> gives it.
\<close>

definition foreign_keys :: bool where
  "foreign_keys = False"

datatype store_error = UniqueViolation | ForeignKeyViolation | DatatypeMismatch

fun error_message :: "store_error \<Rightarrow> string" where
  "error_message UniqueViolation =
     ''SQLITE_CONSTRAINT: UNIQUE constraint failed: customers.phone_number''"
| "error_message ForeignKeyViolation = ''SQLITE_CONSTRAINT: FOREIGN KEY constraint failed''"
| "error_message DatatypeMismatch = ''SQLITE_MISMATCH: datatype mismatch''"

subsection \<open>The SQL statements\<close>

text \<open>AUTOINCREMENT: one more than the largest of the counter and the rowids in the table.\<close>

definition next_rowid :: "int \<Rightarrow> int list \<Rightarrow> int" where
  "next_rowid seq ids = fold max ids seq + 1"

text \<open>
  \<open>INSERT INTO customers (first_name, last_name, phone_number) VALUES (?, ?, ?)\<close>:
  \<open>phone_number\<close> is UNIQUE. The result is \<open>this.lastID\<close> and the database.
\<close>

definition insert_customer ::
  "database \<Rightarrow> ustring \<Rightarrow> ustring \<Rightarrow> ustring \<Rightarrow> store_error + (int \<times> database)" where
  "insert_customer db f l p =
     (if p \<in> set (map phone_number (customers db)) then Inl UniqueViolation
      else let new = next_rowid (customers_seq db) (map c_id (customers db))
           in Inr (new, db\<lparr>customers := customers db @
                               [\<lparr>c_id = new, first_name = f, last_name = l, phone_number = p\<rparr>],
                            customers_seq := new\<rparr>))"

text \<open>
  \<open>UPDATE customers SET first_name = ?, last_name = ?, phone_number = ? WHERE id = ?\<close>.
  The result is \<open>this.changes\<close>, the number of rows the WHERE clause selected, and the
  database. The statement fails when a row it rewrites would share its phone number with
  another row.
\<close>

definition update_customer ::
  "database \<Rightarrow> ustring \<Rightarrow> ustring \<Rightarrow> ustring \<Rightarrow> int
     \<Rightarrow> store_error + (nat \<times> database)" where
  "update_customer db f l p i =
     (if list_ex (\<lambda>c. c_id c = i) (customers db) \<and>
         list_ex (\<lambda>d. c_id d \<noteq> i \<and> phone_number d = p) (customers db)
      then Inl UniqueViolation
      else Inr (length (filter (\<lambda>c. c_id c = i) (customers db)),
                db\<lparr>customers :=
                     map (\<lambda>c. if c_id c = i
                              then c\<lparr>first_name := f, last_name := l, phone_number := p\<rparr>
                              else c)
                         (customers db)\<rparr>))"

text \<open>
  \<open>DELETE FROM customers WHERE id = ?\<close>. With foreign keys enforced, ON DELETE CASCADE
  (line 37) deletes the addresses that reference a deleted customer; without, the
  addresses table is not touched. \<open>this.changes\<close> counts the customer rows only.
\<close>

definition delete_customer :: "bool \<Rightarrow> database \<Rightarrow> int \<Rightarrow> store_error + (nat \<times> database)" where
  "delete_customer fk db i =
     (let hit = filter (\<lambda>c. c_id c = i) (customers db)
      in Inr (length hit,
              db\<lparr>customers := filter (\<lambda>c. c_id c \<noteq> i) (customers db),
                 addresses := (if fk \<and> hit \<noteq> []
                               then filter (\<lambda>a. customer_id a \<noteq> i) (addresses db)
                               else addresses db)\<rparr>))"

text \<open>\<open>SELECT * FROM customers WHERE id = ?\<close> through \<open>db.get\<close>: the first row, if any.\<close>

definition select_customer :: "database \<Rightarrow> int \<Rightarrow> store_error + customer option" where
  "select_customer db i =
     Inr (case filter (\<lambda>c. c_id c = i) (customers db) of [] \<Rightarrow> None | c # _ \<Rightarrow> Some c)"

text \<open>
  \<open>INSERT INTO addresses (customer_id, address_details, city, state, pin_code)
  VALUES (?, ?, ?, ?, ?)\<close>. With foreign keys enforced the statement fails when no customer
  has the key \<open>customer_id\<close>.
\<close>

definition insert_address ::
  "bool \<Rightarrow> database \<Rightarrow> int \<Rightarrow> ustring \<Rightarrow> ustring \<Rightarrow> ustring \<Rightarrow> ustring
     \<Rightarrow> store_error + (int \<times> database)" where
  "insert_address fk db cid d c s p =
     (if fk \<and> cid \<notin> set (map c_id (customers db)) then Inl ForeignKeyViolation
      else let new = next_rowid (addresses_seq db) (map a_id (addresses db))
           in Inr (new, db\<lparr>addresses := addresses db @
                               [\<lparr>a_id = new, customer_id = cid, address_details = d,
                                 city = c, state = s, pin_code = p\<rparr>],
                            addresses_seq := new\<rparr>))"

text \<open>\<open>SELECT * FROM addresses WHERE customer_id = ?\<close> through \<open>db.all\<close>.\<close>

definition select_addresses :: "database \<Rightarrow> int \<Rightarrow> store_error + address list" where
  "select_addresses db cid = Inr (filter (\<lambda>a. customer_id a = cid) (addresses db))"

text \<open>
  \<open>UPDATE addresses SET address_details = ?, city = ?, state = ?, pin_code = ?
  WHERE id = ?\<close>.
\<close>

definition update_address ::
  "database \<Rightarrow> ustring \<Rightarrow> ustring \<Rightarrow> ustring \<Rightarrow> ustring \<Rightarrow> int
     \<Rightarrow> store_error + (nat \<times> database)" where
  "update_address db d c s p i =
     Inr (length (filter (\<lambda>a. a_id a = i) (addresses db)),
          db\<lparr>addresses :=
               map (\<lambda>a. if a_id a = i
                        then a\<lparr>address_details := d, city := c, state := s, pin_code := p\<rparr>
                        else a)
                   (addresses db)\<rparr>)"

text \<open>\<open>DELETE FROM addresses WHERE id = ?\<close>.\<close>

definition delete_address :: "database \<Rightarrow> int \<Rightarrow> store_error + (nat \<times> database)" where
  "delete_address db i =
     Inr (length (filter (\<lambda>a. a_id a = i) (addresses db)),
          db\<lparr>addresses := filter (\<lambda>a. a_id a \<noteq> i) (addresses db)\<rparr>)"

subsection \<open>LIKE\<close>

text \<open>The engine's case folding: the letters A to Z, and no other character.\<close>

definition ascii_lower :: "nat \<Rightarrow> nat" where
  "ascii_lower c = (if 65 \<le> c \<and> c \<le> 90 then c + 32 else c)"

text \<open>
  A character as LIKE reads it for a comparison: the engine's UTF-8 reader gives U+FFFD
  for U+FFFE and U+FFFF, and the comparison ignores the case of ASCII letters.
\<close>

definition like_fold :: "nat \<Rightarrow> nat" where
  "like_fold c = (if c = 65534 \<or> c = 65535 then 65533 else ascii_lower c)"

text \<open>
  The engine's \<open>patternCompare\<close>, pattern first: \<open>%\<close> (37) stands for any run of
  characters, \<open>_\<close> (95) for any one character, and every other character for the
  characters LIKE reads as it. The source gives no ESCAPE clause.
\<close>

fun pattern_compare :: "ustring \<Rightarrow> ustring \<Rightarrow> bool" where
  "pattern_compare [] t = (t = [])"
| "pattern_compare (p # ps) t =
     (if p = 37
      then pattern_compare ps t \<or>
           (case t of [] \<Rightarrow> False | _ # ts \<Rightarrow> pattern_compare (p # ps) ts)
      else (case t of
              [] \<Rightarrow> False
            | c # ts \<Rightarrow> (p = 95 \<or> like_fold p = like_fold c) \<and> pattern_compare ps ts))"

text \<open>
  The LIKE operator takes both operands as C strings: each ends before its first NUL
  character.
\<close>

definition c_string :: "ustring \<Rightarrow> ustring" where
  "c_string t = takeWhile (\<lambda>c. c \<noteq> 0) t"

definition like :: "ustring \<Rightarrow> ustring \<Rightarrow> bool" where
  "like pat t = pattern_compare (c_string pat) (c_string t)"

text \<open>
  The WHERE clause of lines 82 and 83, with the three parameters of line 84 all equal to
  the pattern.
\<close>

definition where_like :: "ustring \<Rightarrow> customer \<Rightarrow> bool" where
  "where_like pat c =
     (like pat (first_name c) \<or> like pat (last_name c) \<or> like pat (phone_number c))"

subsection \<open>JavaScript numbers\<close>

text \<open>
  The handler of the listing computes with \<open>page\<close> and \<open>limit\<close> as JavaScript numbers,
  double-precision floats. Only integers and the three values that are not finite occur
  before the division of line 107, so a number is \<open>Some n\<close> for the integer \<open>n\<close>, or
  \<open>None\<close> for Infinity, -Infinity and NaN. JSON writes \<open>None\<close> as null.

  \<open>to_number\<close> is the number nearest to an integer: the integer itself below \<open>2^53\<close> in
  magnitude, and beyond that the nearest integer with a significand of 53 bits, ties to
  the even significand, or an infinity when that integer reaches \<open>2^1024\<close>.
\<close>

function bit_length :: "int \<Rightarrow> nat" where
  "bit_length n = (if n \<le> 0 then 0 else Suc (bit_length (n div 2)))"
  by pat_completeness auto
termination
  by (relation "measure nat") auto

declare bit_length.simps [simp del]

definition to_number :: "int \<Rightarrow> int option" where
  "to_number n =
     (let a = \<bar>n\<bar>
      in if a < 2 ^ 53 then Some n
         else let e = bit_length a - 53;
                  m = a div 2 ^ e;
                  r = a mod 2 ^ e;
                  h = 2 ^ (e - 1);
                  m' = (if h < r \<or> (r = h \<and> odd m) then m + 1 else m)
              in if 2 ^ 1024 \<le> m' * 2 ^ e then None
                 else Some (sgn n * (m' * 2 ^ e)))"

text \<open>
  Subtraction and multiplication round the exact result; an operand that is not finite
  gives a result that is not finite.
\<close>

definition js_minus :: "int option \<Rightarrow> int option \<Rightarrow> int option" where
  "js_minus x y =
     (case x of None \<Rightarrow> None
      | Some a \<Rightarrow> (case y of None \<Rightarrow> None | Some b \<Rightarrow> to_number (a - b)))"

definition js_times :: "int option \<Rightarrow> int option \<Rightarrow> int option" where
  "js_times x y =
     (case x of None \<Rightarrow> None
      | Some a \<Rightarrow> (case y of None \<Rightarrow> None | Some b \<Rightarrow> to_number (a * b)))"

text \<open>
  \<open>Math.ceil(a / b)\<close> as the response carries it, for an integer \<open>a\<close> below \<open>2^53\<close> in
  magnitude (a count of rows): a division by zero gives Infinity or NaN, which JSON writes
  as null, and a division by an infinity gives zero.
\<close>

definition ceil_div :: "int \<Rightarrow> int \<Rightarrow> int option" where
  "ceil_div a b = (if b = 0 then None else Some (- ((- a) div b)))"

definition js_ceil_div :: "int \<Rightarrow> int option \<Rightarrow> int option" where
  "js_ceil_div a y = (case y of None \<Rightarrow> Some 0 | Some b \<Rightarrow> ceil_div a b)"

subsection \<open>LIMIT and OFFSET\<close>

text \<open>
  \<open>LIMIT ? OFFSET ?\<close> on integers: a negative offset is no offset, a negative limit is no
  limit.
\<close>

definition limit_offset :: "int \<Rightarrow> int \<Rightarrow> 'a list \<Rightarrow> 'a list" where
  "limit_offset limit offset rows =
     (let rest = drop (nat offset) rows
      in if limit < 0 then rest else take (nat limit) rest)"

text \<open>
  The engine wants a 64-bit integer for either. The limit reaches it as the text of the
  query (or as the integer 10), which is one when it denotes an integer from \<open>-2^63\<close> to
  \<open>2^63 - 1\<close>. The offset reaches it as a number, bound as a float beyond 32 bits, which
  is one when it is finite and strictly between \<open>-2^63\<close> and \<open>2^63\<close>. Otherwise the
  statement fails with a datatype mismatch.
\<close>

definition limit_accepted :: "int \<Rightarrow> bool" where
  "limit_accepted limit = (- (2 ^ 63) \<le> limit \<and> limit < 2 ^ 63)"

definition offset_integer :: "int option \<Rightarrow> int option" where
  "offset_integer offset =
     (case offset of
        None \<Rightarrow> None
      | Some v \<Rightarrow> if - (2 ^ 63) < v \<and> v < 2 ^ 63 then Some v else None)"

text \<open>
  The two statements of the listing. \<open>params\<close> is empty (no WHERE clause) or holds the
  pattern.
\<close>

definition count_customers :: "database \<Rightarrow> ustring option \<Rightarrow> store_error + int" where
  "count_customers db params =
     Inr (int (length (case params of
                         None \<Rightarrow> customers db
                       | Some pat \<Rightarrow> filter (where_like pat) (customers db))))"

definition select_customers ::
  "database \<Rightarrow> ustring option \<Rightarrow> int \<Rightarrow> int option \<Rightarrow> store_error + customer list" where
  "select_customers db params limit offset =
     (if limit_accepted limit
      then (case offset_integer offset of
              None \<Rightarrow> Inl DatatypeMismatch
            | Some v \<Rightarrow>
                Inr (limit_offset limit v
                       (case params of
                          None \<Rightarrow> customers db
                        | Some pat \<Rightarrow> filter (where_like pat) (customers db))))
      else Inl DatatypeMismatch)"

subsection \<open>Responses\<close>

text \<open>
  The pagination object: total, page, limit, totalPages. The last three are numbers,
  \<open>None\<close> being JSON null.
\<close>

datatype pagination = Pagination int "int option" "int option" "int option"

datatype payload =
    Message string
  | Created string int
  | Failure string string
  | CustomerData string customer
  | AddressData string "address list"
  | CustomerPage string "customer list" pagination

record response =
  status :: nat
  body :: payload

definition sendError :: "nat \<Rightarrow> string \<Rightarrow> store_error option \<Rightarrow> response" where
  "sendError st message error =
     \<lparr>status = st,
      body = Failure message
               (case error of
                  Some e \<Rightarrow> error_message e
                | None \<Rightarrow> ''An unknown error occurred.'')\<rparr>"

text \<open>JavaScript's \<open>!x\<close> on a field of the body: absent, or the empty text.\<close>

definition falsy :: "ustring option \<Rightarrow> bool" where
  "falsy x = (case x of None \<Rightarrow> True | Some s \<Rightarrow> s = [])"

subsection \<open>The customer routes\<close>

text \<open>POST /api/customers (lines 53 to 70).\<close>

definition post_customer ::
  "ustring option \<Rightarrow> ustring option \<Rightarrow> ustring option \<Rightarrow> database
     \<Rightarrow> response \<times> database" where
  "post_customer first_name_f last_name_f phone_number_f db =
     (if falsy first_name_f \<or> falsy last_name_f \<or> falsy phone_number_f
      then (sendError 400 ''All fields are required.'' None, db)
      else case insert_customer db (the first_name_f) (the last_name_f) (the phone_number_f) of
             Inl err \<Rightarrow> (sendError 500 ''Error creating customer.'' (Some err), db)
           | Inr (lastID, db') \<Rightarrow>
               (\<lparr>status = 201, body = Created ''Customer created successfully'' lastID\<rparr>, db'))"

text \<open>GET /api/customers (lines 73 to 112).\<close>

definition get_customers ::
  "int option \<Rightarrow> int option \<Rightarrow> ustring option \<Rightarrow> database
     \<Rightarrow> response \<times> database" where
  "get_customers page_q limit_q search_q db =
     (let page = (case page_q of None \<Rightarrow> 1 | Some v \<Rightarrow> v);
          limit = (case limit_q of None \<Rightarrow> 10 | Some v \<Rightarrow> v);
          search = (case search_q of None \<Rightarrow> [] | Some v \<Rightarrow> v);
          offset = js_times (js_minus (to_number page) (Some 1)) (to_number limit);
          params = (if search \<noteq> [] then Some (37 # search @ [37]) else None)
      in case count_customers db params of
           Inl err \<Rightarrow> (sendError 500 ''Error counting customers.'' (Some err), db)
         | Inr totalCustomers \<Rightarrow>
             (case select_customers db params limit offset of
                Inl err \<Rightarrow> (sendError 500 ''Error fetching customers.'' (Some err), db)
              | Inr rows \<Rightarrow>
                  (\<lparr>status = 200,
                    body = CustomerPage ''Customers fetched successfully'' rows
                             (Pagination totalCustomers (to_number page) (to_number limit)
                                (js_ceil_div totalCustomers (to_number limit)))\<rparr>, db)))"

text \<open>GET /api/customers/:id (lines 115 to 131).\<close>

definition get_customer :: "int \<Rightarrow> database \<Rightarrow> response \<times> database" where
  "get_customer i db =
     (case select_customer db i of
        Inl err \<Rightarrow> (sendError 500 ''Error fetching customer.'' (Some err), db)
      | Inr None \<Rightarrow> (sendError 404 ''Customer not found.'' None, db)
      | Inr (Some row) \<Rightarrow>
          (\<lparr>status = 200, body = CustomerData ''Customer fetched successfully'' row\<rparr>, db))"

text \<open>PUT /api/customers/:id (lines 134 to 154).\<close>

definition put_customer ::
  "int \<Rightarrow> ustring option \<Rightarrow> ustring option \<Rightarrow> ustring option \<Rightarrow> database
     \<Rightarrow> response \<times> database" where
  "put_customer i first_name_f last_name_f phone_number_f db =
     (if falsy first_name_f \<or> falsy last_name_f \<or> falsy phone_number_f
      then (sendError 400 ''All fields are required.'' None, db)
      else case update_customer db (the first_name_f) (the last_name_f) (the phone_number_f) i of
             Inl err \<Rightarrow> (sendError 500 ''Error updating customer.'' (Some err), db)
           | Inr (changes, db') \<Rightarrow>
               (if changes = 0
                then (sendError 404 ''Customer not found or no changes made.'' None, db')
                else (\<lparr>status = 200, body = Message ''Customer updated successfully''\<rparr>, db')))"

text \<open>DELETE /api/customers/:id (lines 157 to 172).\<close>

definition delete_customer_route :: "int \<Rightarrow> database \<Rightarrow> response \<times> database" where
  "delete_customer_route i db =
     (case delete_customer foreign_keys db i of
        Inl err \<Rightarrow> (sendError 500 ''Error deleting customer.'' (Some err), db)
      | Inr (changes, db') \<Rightarrow>
          (if changes = 0
           then (sendError 404 ''Customer not found.'' None, db')
           else (\<lparr>status = 200, body = Message ''Customer deleted successfully''\<rparr>, db')))"

subsection \<open>The address routes\<close>

text \<open>POST /api/customers/:id/addresses (lines 177 to 195).\<close>

definition post_address ::
  "int \<Rightarrow> ustring option \<Rightarrow> ustring option \<Rightarrow> ustring option \<Rightarrow> ustring option
     \<Rightarrow> database \<Rightarrow> response \<times> database" where
  "post_address cid address_details_f city_f state_f pin_code_f db =
     (if falsy address_details_f \<or> falsy city_f \<or> falsy state_f \<or> falsy pin_code_f
      then (sendError 400 ''All address fields are required.'' None, db)
      else case insert_address foreign_keys db cid (the address_details_f) (the city_f)
                  (the state_f) (the pin_code_f) of
             Inl err \<Rightarrow> (sendError 500 ''Error adding address.'' (Some err), db)
           | Inr (lastID, db') \<Rightarrow>
               (\<lparr>status = 201, body = Created ''Address added successfully'' lastID\<rparr>, db'))"

text \<open>GET /api/customers/:id/addresses (lines 198 to 211).\<close>

definition get_addresses :: "int \<Rightarrow> database \<Rightarrow> response \<times> database" where
  "get_addresses i db =
     (case select_addresses db i of
        Inl err \<Rightarrow> (sendError 500 ''Error fetching addresses.'' (Some err), db)
      | Inr rows \<Rightarrow>
          (\<lparr>status = 200, body = AddressData ''Addresses fetched successfully'' rows\<rparr>, db))"

text \<open>PUT /api/addresses/:addressId (lines 214 to 234).\<close>

definition put_address ::
  "int \<Rightarrow> ustring option \<Rightarrow> ustring option \<Rightarrow> ustring option \<Rightarrow> ustring option
     \<Rightarrow> database \<Rightarrow> response \<times> database" where
  "put_address addressId address_details_f city_f state_f pin_code_f db =
     (if falsy address_details_f \<or> falsy city_f \<or> falsy state_f \<or> falsy pin_code_f
      then (sendError 400 ''All address fields are required.'' None, db)
      else case update_address db (the address_details_f) (the city_f) (the state_f)
                  (the pin_code_f) addressId of
             Inl err \<Rightarrow> (sendError 500 ''Error updating address.'' (Some err), db)
           | Inr (changes, db') \<Rightarrow>
               (if changes = 0
                then (sendError 404 ''Address not found or no changes made.'' None, db')
                else (\<lparr>status = 200, body = Message ''Address updated successfully''\<rparr>, db')))"

text \<open>DELETE /api/addresses/:addressId (lines 237 to 252).\<close>

definition delete_address_route :: "int \<Rightarrow> database \<Rightarrow> response \<times> database" where
  "delete_address_route addressId db =
     (case delete_address db addressId of
        Inl err \<Rightarrow> (sendError 500 ''Error deleting address.'' (Some err), db)
      | Inr (changes, db') \<Rightarrow>
          (if changes = 0
           then (sendError 404 ''Address not found.'' None, db')
           else (\<lparr>status = 200, body = Message ''Address deleted successfully''\<rparr>, db')))"

subsection \<open>The router\<close>

datatype request =
    PostCustomer "ustring option" "ustring option" "ustring option"
  | GetCustomers "int option" "int option" "ustring option"
  | GetCustomer int
  | PutCustomer int "ustring option" "ustring option" "ustring option"
  | DeleteCustomer int
  | PostAddress int "ustring option" "ustring option" "ustring option" "ustring option"
  | GetAddresses int
  | PutAddress int "ustring option" "ustring option" "ustring option" "ustring option"
  | DeleteAddress int

fun handle :: "request \<Rightarrow> database \<Rightarrow> response \<times> database" where
  "handle (PostCustomer f l p) db = post_customer f l p db"
| "handle (GetCustomers pg lm s) db = get_customers pg lm s db"
| "handle (GetCustomer i) db = get_customer i db"
| "handle (PutCustomer i f l p) db = put_customer i f l p db"
| "handle (DeleteCustomer i) db = delete_customer_route i db"
| "handle (PostAddress i d c s p) db = post_address i d c s p db"
| "handle (GetAddresses i) db = get_addresses i db"
| "handle (PutAddress i d c s p) db = put_address i d c s p db"
| "handle (DeleteAddress i) db = delete_address_route i db"

text \<open>The database after a sequence of requests, served one after the other.\<close>

fun serve :: "request list \<Rightarrow> database \<Rightarrow> database" where
  "serve [] db = db"
| "serve (r # rs) db = serve rs (snd (handle r db))"

subsection \<open>Notions the properties are stated with\<close>

text \<open>
  The rows a listing matches: all of them without a search string (absent or empty), and
  otherwise those the WHERE clause of line 82 keeps under the pattern of line 84.
\<close>

definition matching_customers :: "ustring option \<Rightarrow> database \<Rightarrow> customer list" where
  "matching_customers search_q db =
     (case search_q of
        None \<Rightarrow> customers db
      | Some s \<Rightarrow> if s = [] then customers db
                  else filter (where_like (37 # s @ [37])) (customers db))"

text \<open>
  Containment as the specification words it, \<open>contains_search\<close>: one of the three fields
  has the search string as a substring, the case of ASCII letters aside.
\<close>

definition contains_search :: "ustring \<Rightarrow> customer \<Rightarrow> bool" where
  "contains_search s c =
     (sublist (map ascii_lower s) (map ascii_lower (first_name c)) \<or>
      sublist (map ascii_lower s) (map ascii_lower (last_name c)) \<or>
      sublist (map ascii_lower s) (map ascii_lower (phone_number c)))"

text \<open>
  Containment as LIKE sees it, \<open>contains_search_like\<close>: a field counts up to its first
  NUL character, and characters are compared as LIKE reads them.
\<close>

definition contains_like :: "ustring \<Rightarrow> ustring \<Rightarrow> bool" where
  "contains_like s t = sublist (map like_fold s) (map like_fold (c_string t))"

definition contains_search_like :: "ustring \<Rightarrow> customer \<Rightarrow> bool" where
  "contains_search_like s c =
     (contains_like s (first_name c) \<or> contains_like s (last_name c)
        \<or> contains_like s (phone_number c))"

text \<open>Texts on which the two agree: no NUL, no U+FFFE, no U+FFFF.\<close>

definition plain :: "ustring \<Rightarrow> bool" where
  "plain t = list_all (\<lambda>c. c \<noteq> 0 \<and> c \<noteq> 65534 \<and> c \<noteq> 65535) t"

definition plain_customer :: "customer \<Rightarrow> bool" where
  "plain_customer c = (plain (first_name c) \<and> plain (last_name c) \<and> plain (phone_number c))"


text \<open>A database with two customers, the first of whom owns one address.\<close>

definition ann :: customer where
  "ann = \<lparr>c_id = 1, first_name = chars ''Ann'', last_name = chars ''Lee'',
          phone_number = chars ''5551234''\<rparr>"

definition bob :: customer where
  "bob = \<lparr>c_id = 2, first_name = chars ''Bob'', last_name = chars ''Ray'',
          phone_number = chars ''7770000''\<rparr>"

definition home :: address where
  "home = \<lparr>a_id = 1, customer_id = 1, address_details = chars ''1 Main St'',
           city = chars ''Pune'', state = chars ''MH'', pin_code = chars ''411001''\<rparr>"

definition sample :: database where
  "sample = \<lparr>customers = [ann, bob], addresses = [home],
             customers_seq = 2, addresses_seq = 1\<rparr>"

text \<open>
  A customer whose first name is \<open>A\<close>, NUL, \<open>bc\<close>, and one whose first name is U+FFFD,
  each alone in a database.
\<close>

definition nul_row :: customer where
  "nul_row = \<lparr>c_id = 1, first_name = [65, 0, 98, 99], last_name = chars ''Lee'',
              phone_number = chars ''5551234''\<rparr>"

definition fffd_row :: customer where
  "fffd_row = \<lparr>c_id = 1, first_name = [65533], last_name = chars ''Lee'',
               phone_number = chars ''5551234''\<rparr>"

definition only :: "customer \<Rightarrow> database" where
  "only c = \<lparr>customers = [c], addresses = [], customers_seq = 1, addresses_seq = 0\<rparr>"

section \<open>Properties\<close>

subsection \<open>Keys and validation\<close>

lemma fold_max_ge: "(s::int) \<le> fold max ids s"
  by (induction ids arbitrary: s) (auto intro: order_trans[OF max.cobounded2])

lemma fold_max_mem: "i \<in> set ids \<Longrightarrow> (i::int) \<le> fold max ids s"
proof (induction ids arbitrary: s)
  case Nil
  then show ?case by simp
next
  case (Cons a ids)
  show ?case
  proof (cases "i = a")
    case True
    have "a \<le> max a s" by simp
    also have "\<dots> \<le> fold max ids (max a s)" by (rule fold_max_ge)
    finally show ?thesis using True by simp
  next
    case False
    with Cons show ?thesis by simp
  qed
qed

lemma next_rowid_fresh: "next_rowid seq ids \<notin> set ids"
  using fold_max_mem[of "next_rowid seq ids" ids seq] by (auto simp: next_rowid_def)

lemma falsy_Some [simp]: "falsy (Some s) = (s = [])"
  by (simp add: falsy_def)

lemma falsy_None [simp]: "falsy None"
  by (simp add: falsy_def)

lemma map_no_hit: "\<forall>x \<in> set xs. \<not> P x \<Longrightarrow> map (\<lambda>x. if P x then f x else x) xs = xs"
  by (induction xs) auto

lemma filter_no_hit: "\<forall>x \<in> set xs. \<not> P x \<Longrightarrow> filter P xs = []"
  by (induction xs) auto

lemma filter_hit_nonempty: "n < length xs \<Longrightarrow> P (xs ! n) \<Longrightarrow> filter P xs \<noteq> []"
  by (metis filter_empty_conv nth_mem)

lemma map_update_distinct:
  assumes "distinct (map k xs)" "n < length xs" "k (xs ! n) = i"
  shows "map (\<lambda>x. if k x = i then f x else x) xs = xs[n := f (xs ! n)]"
proof (rule nth_equalityI)
  show "length (map (\<lambda>x. if k x = i then f x else x) xs) = length (xs[n := f (xs ! n)])"
    by simp
next
  fix j assume "j < length (map (\<lambda>x. if k x = i then f x else x) xs)"
  then have j: "j < length xs" by simp
  show "map (\<lambda>x. if k x = i then f x else x) xs ! j = xs[n := f (xs ! n)] ! j"
  proof (cases "j = n")
    case True
    then show ?thesis using assms by simp
  next
    case False
    have "k (xs ! j) \<noteq> k (xs ! n)"
      using assms(1,2) j False by (simp add: distinct_conv_nth)
    then show ?thesis using j False assms(3) by simp
  qed
qed

lemma sample_simps:
  "customers sample = [ann, bob]" "addresses sample = [home]"
  "customers_seq sample = 2" "addresses_seq sample = 1"
  by (simp_all add: sample_def)

lemma chars_nonempty [simp]: "chars s = [] \<longleftrightarrow> s = []"
  by (simp add: chars_def)

text \<open>The sample database is what three requests make of the empty database.\<close>

lemma sample_served:
  "serve [PostCustomer (Some (chars ''Ann'')) (Some (chars ''Lee''))
            (Some (chars ''5551234'')),
          PostCustomer (Some (chars ''Bob'')) (Some (chars ''Ray''))
            (Some (chars ''7770000'')),
          PostAddress 1 (Some (chars ''1 Main St'')) (Some (chars ''Pune''))
            (Some (chars ''MH'')) (Some (chars ''411001''))]
     empty_database = sample"
  by (simp add: post_customer_def insert_customer_def post_address_def insert_address_def
        foreign_keys_def next_rowid_def empty_database_def sample_def ann_def bob_def
        home_def Let_def chars_def)

subsection \<open>Deleting a customer\<close>

text \<open>
  What the schema asks for, on a connection that enforces foreign keys: deleting an
  existing customer leaves no address that references it.
\<close>

lemma delete_customer_enforced_cascades:
  assumes "delete_customer True db i = Inr (n, db')" "i \<in> c_id ` set (customers db)"
  shows "0 < n \<and> filter (\<lambda>a. customer_id a = i) (addresses db') = []"
proof -
  have "filter (\<lambda>c. c_id c = i) (customers db) \<noteq> []"
    using assms(2) by (auto simp: filter_empty_conv)
  then show ?thesis
    using assms(1) by (auto simp: delete_customer_def Let_def filter_empty_conv)
qed

text \<open>The route, on the connection the source opens: the addresses table is never touched.\<close>

lemma delete_customer_route_addresses:
  "addresses (snd (delete_customer_route i db)) = addresses db"
  by (simp add: delete_customer_route_def delete_customer_def foreign_keys_def Let_def)

text \<open>
  C1: deleting a customer that owns N addresses removes the customer and all N addresses,
  and a later listing of that customer's addresses is empty. On the sample database the
  route deletes customer 1 and answers 200, but the address of customer 1 stays in the
  table and the later listing returns it.
\<close>

theorem delete_customer_route_keeps_addresses:
  "delete_customer_route 1 sample =
     (\<lparr>status = 200, body = Message ''Customer deleted successfully''\<rparr>,
      sample\<lparr>customers := [bob]\<rparr>) \<and>
   get_addresses 1 (snd (delete_customer_route 1 sample)) =
     (\<lparr>status = 200, body = AddressData ''Addresses fetched successfully'' [home]\<rparr>,
      sample\<lparr>customers := [bob]\<rparr>)"
  by (simp add: delete_customer_route_def delete_customer_def foreign_keys_def Let_def
        get_addresses_def select_addresses_def sample_simps ann_def bob_def home_def)

subsection \<open>Creating a customer\<close>

text \<open>
  C2: a create request in which one of the three fields is absent or empty is answered
  with status 400 and leaves the database as it was; a request with three non-empty fields whose
  phone number is not stored yet is answered with status 201 and an id no stored customer has,
  and appends exactly the row with that id and the three fields.
\<close>

theorem post_customer_validates_then_inserts:
  "(f = None \<or> f = Some [] \<or> l = None \<or> l = Some [] \<or> p = None \<or> p = Some []
      \<longrightarrow> post_customer f l p db =
            (\<lparr>status = 400,
              body = Failure ''All fields are required.'' ''An unknown error occurred.''\<rparr>,
             db)) \<and>
   (fname \<noteq> [] \<and> lname \<noteq> [] \<and> phone \<noteq> [] \<and> phone \<notin> phone_number ` set (customers db)
      \<longrightarrow> (\<exists>new. new \<notin> c_id ` set (customers db) \<and>
            post_customer (Some fname) (Some lname) (Some phone) db =
              (\<lparr>status = 201, body = Created ''Customer created successfully'' new\<rparr>,
               db\<lparr>customers := customers db @
                     [\<lparr>c_id = new, first_name = fname, last_name = lname,
                       phone_number = phone\<rparr>],
                  customers_seq := new\<rparr>)))"
proof (intro conjI impI)
  assume "f = None \<or> f = Some [] \<or> l = None \<or> l = Some [] \<or> p = None \<or> p = Some []"
  then have "falsy f \<or> falsy l \<or> falsy p" by auto
  then show "post_customer f l p db =
            (\<lparr>status = 400,
              body = Failure ''All fields are required.'' ''An unknown error occurred.''\<rparr>,
             db)"
    by (simp add: post_customer_def sendError_def)
next
  assume a: "fname \<noteq> [] \<and> lname \<noteq> [] \<and> phone \<noteq> [] \<and> phone \<notin> phone_number ` set (customers db)"
  let ?new = "next_rowid (customers_seq db) (map c_id (customers db))"
  have "?new \<notin> c_id ` set (customers db)"
    using next_rowid_fresh[of "customers_seq db" "map c_id (customers db)"] by simp
  moreover have "post_customer (Some fname) (Some lname) (Some phone) db =
      (\<lparr>status = 201, body = Created ''Customer created successfully'' ?new\<rparr>,
       db\<lparr>customers := customers db @
             [\<lparr>c_id = ?new, first_name = fname, last_name = lname, phone_number = phone\<rparr>],
          customers_seq := ?new\<rparr>)"
    using a by (simp add: post_customer_def insert_customer_def Let_def)
  ultimately show "\<exists>new. new \<notin> c_id ` set (customers db) \<and>
            post_customer (Some fname) (Some lname) (Some phone) db =
              (\<lparr>status = 201, body = Created ''Customer created successfully'' new\<rparr>,
               db\<lparr>customers := customers db @
                     [\<lparr>c_id = new, first_name = fname, last_name = lname,
                       phone_number = phone\<rparr>],
                  customers_seq := new\<rparr>)"
    by blast
qed

theorem post_customer_validates_then_inserts_witness:
  "post_customer (Some (chars ''Cy'')) None (Some (chars ''8881111'')) sample =
     (\<lparr>status = 400,
       body = Failure ''All fields are required.'' ''An unknown error occurred.''\<rparr>,
      sample) \<and>
   (\<exists>new. new \<notin> c_id ` set (customers sample) \<and>
      post_customer (Some (chars ''Cy'')) (Some (chars ''Fox'')) (Some (chars ''8881111''))
          sample =
        (\<lparr>status = 201, body = Created ''Customer created successfully'' new\<rparr>,
         sample\<lparr>customers := customers sample @
                  [\<lparr>c_id = new, first_name = chars ''Cy'', last_name = chars ''Fox'',
                    phone_number = chars ''8881111''\<rparr>],
                customers_seq := new\<rparr>))"
proof -
  have h1: "Some (chars ''Cy'') = None \<or> Some (chars ''Cy'') = Some []
      \<or> (None :: ustring option) = None \<or> (None :: ustring option) = Some []
      \<or> Some (chars ''8881111'') = None \<or> Some (chars ''8881111'') = Some []"
    by simp
  have h2: "chars ''Cy'' \<noteq> [] \<and> chars ''Fox'' \<noteq> [] \<and> chars ''8881111'' \<noteq> []
      \<and> chars ''8881111'' \<notin> phone_number ` set (customers sample)"
    by (simp add: sample_simps ann_def bob_def chars_def)
  from post_customer_validates_then_inserts
    [of "Some (chars ''Cy'')" None "Some (chars ''8881111'')" sample
        "chars ''Cy''" "chars ''Fox''" "chars ''8881111''"]
  show ?thesis using h1 h2 by blast
qed

text \<open>
  C3: while a customer with phone number \<open>phone\<close> is stored, a create request with
  non-empty fields and that phone number is answered with status 500, carrying the
  engine's constraint error, and inserts nothing. So of two creates with one phone
  number, the second fails whenever the first succeeded.
\<close>

theorem post_customer_duplicate_phone:
  assumes "fname \<noteq> []" "lname \<noteq> []" "phone \<noteq> []"
  shows "(phone \<in> phone_number ` set (customers db) \<longrightarrow>
            post_customer (Some fname) (Some lname) (Some phone) db =
              (\<lparr>status = 500,
                body = Failure ''Error creating customer.''
                  ''SQLITE_CONSTRAINT: UNIQUE constraint failed: customers.phone_number''\<rparr>,
               db)) \<and>
         (status (fst (post_customer first_f last_f (Some phone) db)) = 201 \<longrightarrow>
            post_customer (Some fname) (Some lname) (Some phone)
                (snd (post_customer first_f last_f (Some phone) db)) =
              (\<lparr>status = 500,
                body = Failure ''Error creating customer.''
                  ''SQLITE_CONSTRAINT: UNIQUE constraint failed: customers.phone_number''\<rparr>,
               snd (post_customer first_f last_f (Some phone) db)))"
proof (intro conjI impI)
  assume "phone \<in> phone_number ` set (customers db)"
  then show "post_customer (Some fname) (Some lname) (Some phone) db =
              (\<lparr>status = 500,
                body = Failure ''Error creating customer.''
                  ''SQLITE_CONSTRAINT: UNIQUE constraint failed: customers.phone_number''\<rparr>,
               db)"
    using assms by (simp add: post_customer_def insert_customer_def sendError_def)
next
  let ?db1 = "snd (post_customer first_f last_f (Some phone) db)"
  assume ok: "status (fst (post_customer first_f last_f (Some phone) db)) = 201"
  have "phone \<in> phone_number ` set (customers ?db1)"
    using ok
    by (auto simp: post_customer_def insert_customer_def sendError_def Let_def
             split: if_splits)
  then show "post_customer (Some fname) (Some lname) (Some phone) ?db1 =
              (\<lparr>status = 500,
                body = Failure ''Error creating customer.''
                  ''SQLITE_CONSTRAINT: UNIQUE constraint failed: customers.phone_number''\<rparr>,
               ?db1)"
    using assms by (simp add: post_customer_def insert_customer_def sendError_def)
qed

theorem post_customer_duplicate_phone_witness:
  "post_customer (Some (chars ''Cy'')) (Some (chars ''Fox'')) (Some (chars ''5551234''))
       sample =
     (\<lparr>status = 500,
       body = Failure ''Error creating customer.''
         ''SQLITE_CONSTRAINT: UNIQUE constraint failed: customers.phone_number''\<rparr>,
      sample) \<and>
   status (fst (post_customer (Some (chars ''Di'')) (Some (chars ''Orr''))
                  (Some (chars ''8881111'')) sample)) = 201 \<and>
   post_customer (Some (chars ''Cy'')) (Some (chars ''Fox'')) (Some (chars ''8881111''))
       (snd (post_customer (Some (chars ''Di'')) (Some (chars ''Orr''))
               (Some (chars ''8881111'')) sample)) =
     (\<lparr>status = 500,
       body = Failure ''Error creating customer.''
         ''SQLITE_CONSTRAINT: UNIQUE constraint failed: customers.phone_number''\<rparr>,
      snd (post_customer (Some (chars ''Di'')) (Some (chars ''Orr''))
             (Some (chars ''8881111'')) sample))"
proof -
  have h1: "chars ''5551234'' \<in> phone_number ` set (customers sample)"
    by (simp add: sample_simps ann_def bob_def)
  have h2: "status (fst (post_customer (Some (chars ''Di'')) (Some (chars ''Orr''))
                           (Some (chars ''8881111'')) sample)) = 201"
    by (simp add: post_customer_def insert_customer_def Let_def sample_simps ann_def bob_def
          chars_def)
  have n: "chars ''Cy'' \<noteq> []" "chars ''Fox'' \<noteq> []" "chars ''5551234'' \<noteq> []"
    "chars ''8881111'' \<noteq> []"
    by simp_all
  from post_customer_duplicate_phone[OF n(1,2,3), where db = sample] h1
  have a: "post_customer (Some (chars ''Cy'')) (Some (chars ''Fox'')) (Some (chars ''5551234''))
       sample =
     (\<lparr>status = 500,
       body = Failure ''Error creating customer.''
         ''SQLITE_CONSTRAINT: UNIQUE constraint failed: customers.phone_number''\<rparr>,
      sample)"
    by blast
  from post_customer_duplicate_phone[OF n(1,2,4), where db = sample
      and first_f = "Some (chars ''Di'')" and last_f = "Some (chars ''Orr'')"] h2
  have b: "post_customer (Some (chars ''Cy'')) (Some (chars ''Fox'')) (Some (chars ''8881111''))
       (snd (post_customer (Some (chars ''Di'')) (Some (chars ''Orr''))
               (Some (chars ''8881111'')) sample)) =
     (\<lparr>status = 500,
       body = Failure ''Error creating customer.''
         ''SQLITE_CONSTRAINT: UNIQUE constraint failed: customers.phone_number''\<rparr>,
      snd (post_customer (Some (chars ''Di'')) (Some (chars ''Orr''))
             (Some (chars ''8881111'')) sample))"
    by blast
  from a h2 b show ?thesis by blast
qed

subsection \<open>Rounding\<close>

lemma bit_length_bounds:
  "0 < n \<Longrightarrow> 2 ^ (bit_length n - 1) \<le> n \<and> n < 2 ^ bit_length n"
proof (induction n rule: bit_length.induct)
  case (1 n)
  have bl: "bit_length n = Suc (bit_length (n div 2))"
    using "1.prems" by (subst bit_length.simps) simp
  show ?case
  proof (cases "0 < n div 2")
    case False
    then have "n = 1" using "1.prems" by presburger
    then have "bit_length (n div 2) = 0" by (subst bit_length.simps) simp
    with \<open>n = 1\<close> bl show ?thesis by simp
  next
    case True
    with "1.IH" "1.prems" have ih: "2 ^ (bit_length (n div 2) - 1) \<le> n div 2"
      "n div 2 < 2 ^ bit_length (n div 2)"
      by simp_all
    have pos: "0 < bit_length (n div 2)"
      using True by (subst bit_length.simps) simp
    then obtain k where k: "bit_length (n div 2) = Suc k"
      by (cases "bit_length (n div 2)") simp_all
    from ih k have "2 ^ k \<le> n div 2" "n div 2 < 2 * 2 ^ k" by simp_all
    then have "2 * 2 ^ k \<le> n" "n < 2 * (2 * 2 ^ k)" by presburger+
    then show ?thesis using bl k by simp
  qed
qed

lemma times_ge:
  assumes "1 \<le> x" "k \<le> y" "0 \<le> k"
  shows "k \<le> x * (y::int)"
proof -
  have "1 * k \<le> x * y" using assms by (intro mult_mono) simp_all
  then show ?thesis by simp
qed

lemma to_number_small: "\<bar>n\<bar> < 2 ^ 53 \<Longrightarrow> to_number n = Some n"
  by (simp add: to_number_def)

lemma to_number_large:
  assumes "2 ^ 53 \<le> n" "to_number n = Some r"
  shows "2 ^ 53 \<le> r"
proof -
  define e where "e = bit_length n - 53"
  define m where "m = n div 2 ^ e"
  have n: "0 < n" "\<bar>n\<bar> = n" "sgn n = 1" "\<not> n < 2 ^ 53"
    using assms(1) by simp_all
  from bit_length_bounds[OF n(1)] have b: "2 ^ (bit_length n - 1) \<le> n" "n < 2 ^ bit_length n"
    by simp_all
  have lt: "(2::int) ^ 53 < 2 ^ bit_length n" using assms(1) b(2) by linarith
  have "53 < bit_length n"
  proof (rule ccontr)
    assume "\<not> 53 < bit_length n"
    then have "bit_length n \<le> 53" by simp
    then have "(2::int) ^ bit_length n \<le> 2 ^ 53" by (intro power_increasing) simp_all
    with lt show False by linarith
  qed
  then have e: "bit_length n - 1 = e + 52" "1 \<le> e" by (simp_all add: e_def)
  have "(2::int) ^ 52 * 2 ^ e \<le> n"
    using b(1) e(1) by (simp add: power_add mult.commute)
  then have "(2::int) ^ 52 * 2 ^ e div 2 ^ e \<le> n div 2 ^ e"
    by (intro zdiv_mono1) simp_all
  then have m: "2 ^ 52 \<le> m" by (simp add: m_def)
  have r: "r = m * 2 ^ e \<or> r = (m + 1) * 2 ^ e"
    using assms(2) n by (auto simp: to_number_def Let_def e_def m_def split: if_splits)
  have "(2::int) ^ 1 \<le> 2 ^ e" using e(2) by (intro power_increasing) simp_all
  then have two: "(2::int) \<le> 2 ^ e" by simp
  have "2 ^ 52 * 2 \<le> m * 2 ^ e"
    using m two by (intro mult_mono) simp_all
  moreover have "2 ^ 52 * 2 \<le> (m + 1) * 2 ^ e"
    using m two by (intro mult_mono) simp_all
  ultimately show ?thesis using r by auto
qed

lemma to_number_nat:
  assumes "0 \<le> n" "to_number n = Some r"
  shows "(n < 2 ^ 53 \<and> r = n) \<or> (2 ^ 53 \<le> n \<and> 2 ^ 53 \<le> r)"
proof (cases "n < 2 ^ 53")
  case True
  with assms to_number_small[of n] show ?thesis by simp
next
  case False
  with assms to_number_large[of n r] show ?thesis by simp
qed

text \<open>
  The offset of line 75 for \<open>page\<close> and \<open>limit\<close> from 1 on, when it is finite: it is the
  product \<open>(page - 1) * limit\<close>, or both are at least \<open>2^53 - 1\<close>.
\<close>

lemma offset_number:
  assumes "1 \<le> page" "1 \<le> limit"
    and "js_times (js_minus (to_number page) (Some 1)) (to_number limit) = Some v"
  shows "v = (page - 1) * limit \<or> (2 ^ 53 - 1 \<le> v \<and> 2 ^ 53 - 1 \<le> (page - 1) * limit)"
proof -
  from assms(3) obtain p q l where
    p: "to_number page = Some p" and q: "to_number (p - 1) = Some q"
    and l: "to_number limit = Some l" and v: "to_number (q * l) = Some v"
    by (auto simp: js_times_def js_minus_def split: option.splits)
  have P: "(page < 2 ^ 53 \<and> p = page) \<or> (2 ^ 53 \<le> page \<and> 2 ^ 53 \<le> p)"
    using to_number_nat[OF _ p] assms(1) by simp
  have L: "(limit < 2 ^ 53 \<and> l = limit) \<or> (2 ^ 53 \<le> limit \<and> 2 ^ 53 \<le> l)"
    using to_number_nat[OF _ l] assms(2) by simp
  have l1: "1 \<le> l" using L assms(2) by auto
  have p1: "0 \<le> p - 1" using P assms(1) by auto
  have Q: "(p - 1 < 2 ^ 53 \<and> q = p - 1) \<or> (2 ^ 53 \<le> p - 1 \<and> 2 ^ 53 \<le> q)"
    using to_number_nat[OF p1 q] .
  have q0: "0 \<le> q" using Q p1 by auto
  have ql: "0 \<le> q * l" using q0 l1 by simp
  have V: "(q * l < 2 ^ 53 \<and> v = q * l) \<or> (2 ^ 53 \<le> q * l \<and> 2 ^ 53 \<le> v)"
    using to_number_nat[OF ql v] .
  show ?thesis
  proof (cases "page < 2 ^ 53")
    case True
    then have pq: "p = page" "q = page - 1" using P Q by auto
    show ?thesis
    proof (cases "limit < 2 ^ 53")
      case True
      then have "l = limit" using L by auto
      with pq V show ?thesis by auto
    next
      case False
      then have big: "2 ^ 53 \<le> limit" "2 ^ 53 \<le> l" using L by auto
      show ?thesis
      proof (cases "page = 1")
        case True
        with pq V show ?thesis by auto
      next
        case False
        then have "1 \<le> page - 1" using assms(1) by simp
        then have "2 ^ 53 \<le> (page - 1) * l" "2 ^ 53 \<le> (page - 1) * limit"
          using big by (simp_all add: times_ge)
        with pq V show ?thesis by auto
      qed
    qed
  next
    case False
    then have "2 ^ 53 \<le> page" "2 ^ 53 \<le> p" using P by auto
    then have "2 ^ 53 - 1 \<le> q" "2 ^ 53 - 1 \<le> page - 1" using Q by auto
    then have "2 ^ 53 - 1 \<le> l * q" "2 ^ 53 - 1 \<le> limit * (page - 1)"
      using l1 assms(2) by (simp_all add: times_ge)
    then have "2 ^ 53 - 1 \<le> q * l" "2 ^ 53 - 1 \<le> (page - 1) * limit"
      by (simp_all add: mult.commute)
    with V show ?thesis by auto
  qed
qed

lemma offset_number_small:
  assumes "1 \<le> page" "1 \<le> limit" "page < 2 ^ 53" "limit < 2 ^ 53"
    and "(page - 1) * limit < 2 ^ 53"
  shows "js_times (js_minus (to_number page) (Some 1)) (to_number limit)
           = Some ((page - 1) * limit)"
proof -
  have "0 \<le> (page - 1) * limit" using assms(1,2) by simp
  then show ?thesis
    using assms by (simp add: js_times_def js_minus_def to_number_small)
qed

subsection \<open>Listing customers\<close>

lemma ceil_div_ceiling:
  assumes "b \<noteq> 0"
  shows "ceil_div a b = Some \<lceil>real_of_int a / real_of_int b\<rceil>"
proof -
  have "\<lceil>real_of_int a / real_of_int b\<rceil> = - \<lfloor>real_of_int (- a) / real_of_int b\<rfloor>"
    by (simp add: ceiling_def)
  also have "\<dots> = - ((- a) div b)"
    by (simp only: floor_divide_of_int_eq)
  finally show ?thesis using assms by (simp add: ceil_div_def)
qed

lemma ceiling_below_one:
  assumes "0 \<le> a" "a < b"
  shows "\<lceil>real_of_int a / real_of_int b\<rceil> = (if a = 0 then 0 else 1)"
proof (cases "a = 0")
  case True
  then show ?thesis by simp
next
  case False
  with assms have "0 < real_of_int a / real_of_int b" "real_of_int a / real_of_int b \<le> 1"
    by simp_all
  then have "\<lceil>real_of_int a / real_of_int b\<rceil> = 1"
    by (intro ceiling_unique) simp_all
  with False show ?thesis by simp
qed

lemma length_matching_customers:
  "length (matching_customers search_q db) \<le> length (customers db)"
  by (simp add: matching_customers_def split: option.splits)

text \<open>The handler with its two statements run: both work on the same matching rows.\<close>

lemma get_customers_unfold:
  "get_customers page_q limit_q search_q db =
     (let page = (case page_q of None \<Rightarrow> 1 | Some v \<Rightarrow> v);
          limit = (case limit_q of None \<Rightarrow> 10 | Some v \<Rightarrow> v)
      in if limit_accepted limit
         then (case offset_integer
                     (js_times (js_minus (to_number page) (Some 1)) (to_number limit)) of
                 None \<Rightarrow>
                   (\<lparr>status = 500,
                     body = Failure ''Error fetching customers.''
                              ''SQLITE_MISMATCH: datatype mismatch''\<rparr>, db)
               | Some v \<Rightarrow>
                   (\<lparr>status = 200,
                     body = CustomerPage ''Customers fetched successfully''
                              (limit_offset limit v (matching_customers search_q db))
                              (Pagination (int (length (matching_customers search_q db)))
                                 (to_number page) (to_number limit)
                                 (js_ceil_div (int (length (matching_customers search_q db)))
                                    (to_number limit)))\<rparr>, db))
         else (\<lparr>status = 500,
                body = Failure ''Error fetching customers.''
                         ''SQLITE_MISMATCH: datatype mismatch''\<rparr>, db))"
  by (simp add: get_customers_def matching_customers_def count_customers_def
        select_customers_def sendError_def Let_def split: option.splits)

lemma get_customers_snd: "snd (get_customers page_q limit_q search_q db) = db"
  by (simp add: get_customers_unfold Let_def split: option.splits)

lemma offset_integer_Some:
  "offset_integer x = Some v \<longleftrightarrow> x = Some v \<and> - (2 ^ 63) < v \<and> v < 2 ^ 63"
  by (auto simp: offset_integer_def split: option.splits)

text \<open>
  C4 as stated fails on the code: the engine takes 64-bit integers for LIMIT and OFFSET
  only, so the request with \<open>page = limit = 2^32\<close>, whose offset is \<open>2^64 - 2^32\<close>, and the
  request with \<open>limit = 2^63\<close> are both answered with status 500 and no rows.
\<close>

theorem get_customers_window_counterexample:
  "get_customers (Some 4294967296) (Some 4294967296) None sample =
     (\<lparr>status = 500,
       body = Failure ''Error fetching customers.''
                ''SQLITE_MISMATCH: datatype mismatch''\<rparr>, sample) \<and>
   get_customers (Some 1) (Some 9223372036854775808) None sample =
     (\<lparr>status = 500,
       body = Failure ''Error fetching customers.''
                ''SQLITE_MISMATCH: datatype mismatch''\<rparr>, sample)"
proof
  have "to_number (4294967295 * 4294967296) = Some 18446744069414584320"
    by (simp add: to_number_def Let_def bit_length.simps)
  then have "js_times (js_minus (to_number 4294967296) (Some 1)) (to_number 4294967296)
               = Some 18446744069414584320"
    by (simp add: js_times_def js_minus_def to_number_small)
  then show "get_customers (Some 4294967296) (Some 4294967296) None sample =
     (\<lparr>status = 500,
       body = Failure ''Error fetching customers.''
                ''SQLITE_MISMATCH: datatype mismatch''\<rparr>, sample)"
    by (simp add: get_customers_unfold limit_accepted_def offset_integer_def)
  show "get_customers (Some 1) (Some 9223372036854775808) None sample =
     (\<lparr>status = 500,
       body = Failure ''Error fetching customers.''
                ''SQLITE_MISMATCH: datatype mismatch''\<rparr>, sample)"
    by (simp add: get_customers_unfold limit_accepted_def)
qed

text \<open>
  C4 amended. Let \<open>page \<ge> 1\<close> and \<open>limit \<ge> 1\<close>. When \<open>page\<close>, \<open>limit\<close> and
  \<open>(page - 1) * limit\<close> are below \<open>2^53\<close>, the listing answers with the \<open>limit\<close> rows (fewer
  at the end) found at offset \<open>(page - 1) * limit\<close> of the matching rows, with the number
  of all matching rows as total, whatever the page, and with \<open>\<lceil>total / limit\<rceil>\<close> as
  totalPages. Beyond that, on a table of fewer than \<open>2^53\<close> rows, it answers either so,
  with \<open>page\<close> and \<open>limit\<close> echoed as JavaScript numbers, or with status 500 and the
  engine's datatype mismatch.
\<close>

theorem get_customers_window:
  assumes "1 \<le> page" "1 \<le> limit"
  shows "(page < 2 ^ 53 \<and> limit < 2 ^ 53 \<and> (page - 1) * limit < 2 ^ 53 \<longrightarrow>
            get_customers (Some page) (Some limit) search_q db =
              (\<lparr>status = 200,
                body = CustomerPage ''Customers fetched successfully''
                         (take (nat limit) (drop (nat ((page - 1) * limit))
                            (matching_customers search_q db)))
                         (Pagination (int (length (matching_customers search_q db)))
                            (Some page) (Some limit)
                            (Some \<lceil>real (length (matching_customers search_q db))
                                     / real_of_int limit\<rceil>))\<rparr>, db)) \<and>
         (length (customers db) < 2 ^ 53 \<longrightarrow>
            get_customers (Some page) (Some limit) search_q db =
              (\<lparr>status = 200,
                body = CustomerPage ''Customers fetched successfully''
                         (take (nat limit) (drop (nat ((page - 1) * limit))
                            (matching_customers search_q db)))
                         (Pagination (int (length (matching_customers search_q db)))
                            (to_number page) (to_number limit)
                            (Some \<lceil>real (length (matching_customers search_q db))
                                     / real_of_int limit\<rceil>))\<rparr>, db) \<or>
            get_customers (Some page) (Some limit) search_q db =
              (\<lparr>status = 500,
                body = Failure ''Error fetching customers.''
                         ''SQLITE_MISMATCH: datatype mismatch''\<rparr>, db)) \<and>
         length (take (nat limit) (drop (nat ((page - 1) * limit))
                   (matching_customers search_q db))) \<le> nat limit"
proof (intro conjI impI)
  let ?M = "matching_customers search_q db"
  let ?X = "(page - 1) * limit"
  have l0: "limit \<noteq> 0" using assms(2) by simp
  show "length (take (nat limit) (drop (nat ?X) ?M)) \<le> nat limit"
    by simp
  {
    assume small: "page < 2 ^ 53 \<and> limit < 2 ^ 53 \<and> ?X < 2 ^ 53"
    have off: "js_times (js_minus (to_number page) (Some 1)) (to_number limit) = Some ?X"
      using offset_number_small[OF assms] small by simp
    have x0: "0 \<le> ?X" using assms by simp
    have oi: "offset_integer (Some ?X) = Some ?X"
      using small x0 by (simp add: offset_integer_def)
    have la: "limit_accepted limit"
      using small assms(2) by (simp add: limit_accepted_def)
    have tn: "to_number page = Some page" "to_number limit = Some limit"
      using small assms by (simp_all add: to_number_small)
    have off': "js_times (js_minus (Some page) (Some 1)) (Some limit) = Some ?X"
      using off tn by simp
    show "get_customers (Some page) (Some limit) search_q db =
              (\<lparr>status = 200,
                body = CustomerPage ''Customers fetched successfully''
                         (take (nat limit) (drop (nat ?X) ?M))
                         (Pagination (int (length ?M)) (Some page) (Some limit)
                            (Some \<lceil>real (length ?M) / real_of_int limit\<rceil>))\<rparr>, db)"
      using assms(2) ceil_div_ceiling[OF l0, of "int (length ?M)"]
      by (simp add: get_customers_unfold off' oi la tn limit_offset_def js_ceil_div_def)
  }
  {
    assume len: "length (customers db) < 2 ^ 53"
    have lenM: "int (length ?M) < 2 ^ 53"
      using len length_matching_customers[of search_q db] by simp
    let ?off = "js_times (js_minus (to_number page) (Some 1)) (to_number limit)"
    show "get_customers (Some page) (Some limit) search_q db =
              (\<lparr>status = 200,
                body = CustomerPage ''Customers fetched successfully''
                         (take (nat limit) (drop (nat ?X) ?M))
                         (Pagination (int (length ?M)) (to_number page) (to_number limit)
                            (Some \<lceil>real (length ?M) / real_of_int limit\<rceil>))\<rparr>, db) \<or>
            get_customers (Some page) (Some limit) search_q db =
              (\<lparr>status = 500,
                body = Failure ''Error fetching customers.''
                         ''SQLITE_MISMATCH: datatype mismatch''\<rparr>, db)"
    proof (cases "limit_accepted limit \<and> offset_integer ?off \<noteq> None")
      case False
      then show ?thesis
        by (auto simp: get_customers_unfold)
    next
      case True
      then obtain v where v: "offset_integer ?off = Some v" by auto
      then have off: "?off = Some v" by (simp add: offset_integer_Some)
      from off obtain l where l: "to_number limit = Some l"
        by (auto simp: js_times_def split: option.splits)
      have drop_eq: "drop (nat v) ?M = drop (nat ?X) ?M"
      proof -
        from offset_number[OF assms off]
        consider "v = ?X" | "2 ^ 53 - 1 \<le> v" "2 ^ 53 - 1 \<le> ?X" by blast
        then show ?thesis
        proof cases
          case 1
          then show ?thesis by simp
        next
          case 2
          with lenM have "length ?M \<le> nat v" "length ?M \<le> nat ?X" by linarith+
          then show ?thesis by simp
        qed
      qed
      have pages: "js_ceil_div (int (length ?M)) (to_number limit) =
                     Some \<lceil>real (length ?M) / real_of_int limit\<rceil>"
      proof -
        from to_number_nat[OF _ l] assms(2)
        consider "l = limit" | "2 ^ 53 \<le> limit" "2 ^ 53 \<le> l" by auto
        then show ?thesis
        proof cases
          case 1
          with ceil_div_ceiling[OF l0, of "int (length ?M)"] l show ?thesis
            by (simp add: js_ceil_div_def)
        next
          case 2
          then have "l \<noteq> 0" "int (length ?M) < l" "int (length ?M) < limit"
            using lenM by linarith+
          with ceil_div_ceiling[of l "int (length ?M)"]
            ceiling_below_one[of "int (length ?M)" l]
            ceiling_below_one[of "int (length ?M)" limit] l
          show ?thesis by (simp add: js_ceil_div_def)
        qed
      qed
      show ?thesis
        using True v assms(2)
        by (simp add: get_customers_unfold limit_offset_def drop_eq pages)
    qed
  }
qed

theorem get_customers_window_witness:
  "get_customers (Some 2) (Some 1) None sample =
     (\<lparr>status = 200,
       body = CustomerPage ''Customers fetched successfully'' [bob]
                (Pagination 2 (Some 2) (Some 1) (Some 2))\<rparr>, sample) \<and>
   get_customers (Some 1) (Some 4611686018427387904) None sample =
     (\<lparr>status = 200,
       body = CustomerPage ''Customers fetched successfully'' [ann, bob]
                (Pagination 2 (Some 1) (Some 4611686018427387904) (Some 1))\<rparr>, sample)"
proof
  have h: "(1::int) \<le> 2" "(1::int) \<le> 1" by simp_all
  have s: "(2::int) < 2 ^ 53 \<and> (1::int) < 2 ^ 53 \<and> (2 - 1) * (1::int) < 2 ^ 53" by simp
  have m: "matching_customers None sample = [ann, bob]"
    by (simp add: matching_customers_def sample_simps)
  from get_customers_window[OF h, where search_q = None and db = sample, THEN conjunct1] s
  show "get_customers (Some 2) (Some 1) None sample =
     (\<lparr>status = 200,
       body = CustomerPage ''Customers fetched successfully'' [bob]
                (Pagination 2 (Some 2) (Some 1) (Some 2))\<rparr>, sample)"
    by (simp add: m)
next
  let ?r = "get_customers (Some 1) (Some 4611686018427387904) None sample"
  have h: "(1::int) \<le> 1" "(1::int) \<le> 4611686018427387904" by simp_all
  have len: "length (customers sample) < 2 ^ 53" by (simp add: sample_simps)
  have m: "matching_customers None sample = [ann, bob]"
    by (simp add: matching_customers_def sample_simps)
  have t: "to_number 1 = Some 1" "to_number 4611686018427387904 = Some 4611686018427387904"
    by (simp_all add: to_number_def Let_def bit_length.simps)
  have c: "\<lceil>real (length [ann, bob]) / real_of_int 4611686018427387904\<rceil> = 1"
    by (intro ceiling_unique) simp_all
  have ok: "status (fst ?r) = 200"
    by (simp add: get_customers_unfold limit_accepted_def offset_integer_def js_times_def
          js_minus_def t to_number_small)
  from get_customers_window
    [OF h, where search_q = None and db = sample, THEN conjunct2, THEN conjunct1] len
  have "?r =
      (\<lparr>status = 200,
        body = CustomerPage ''Customers fetched successfully''
                 (take (nat 4611686018427387904) (drop (nat ((1 - 1) * 4611686018427387904))
                    (matching_customers None sample)))
                 (Pagination (int (length (matching_customers None sample)))
                    (to_number 1) (to_number 4611686018427387904)
                    (Some \<lceil>real (length (matching_customers None sample))
                             / real_of_int 4611686018427387904\<rceil>))\<rparr>, sample) \<or>
    ?r =
      (\<lparr>status = 500,
        body = Failure ''Error fetching customers.''
                 ''SQLITE_MISMATCH: datatype mismatch''\<rparr>, sample)"
    by blast
  then have "?r =
      (\<lparr>status = 200,
        body = CustomerPage ''Customers fetched successfully''
                 (take (nat 4611686018427387904) (drop (nat ((1 - 1) * 4611686018427387904))
                    (matching_customers None sample)))
                 (Pagination (int (length (matching_customers None sample)))
                    (to_number 1) (to_number 4611686018427387904)
                    (Some \<lceil>real (length (matching_customers None sample))
                             / real_of_int 4611686018427387904\<rceil>))\<rparr>, sample)"
    using ok by auto
  then show "?r =
     (\<lparr>status = 200,
       body = CustomerPage ''Customers fetched successfully'' [ann, bob]
                (Pagination 2 (Some 1) (Some 4611686018427387904) (Some 1))\<rparr>, sample)"
    by (simp only: m t c) simp
qed

text \<open>
  C10: an omitted \<open>page\<close> is 1, an omitted \<open>limit\<close> is 10 and an omitted \<open>search\<close> is the
  empty string; the bare request answers with the first ten rows of the table, unfiltered.
\<close>

theorem get_customers_defaults:
  "get_customers None limit_q search_q db = get_customers (Some 1) limit_q search_q db \<and>
   get_customers page_q None search_q db = get_customers page_q (Some 10) search_q db \<and>
   get_customers page_q limit_q None db = get_customers page_q limit_q (Some []) db \<and>
   get_customers None None None db =
     (\<lparr>status = 200,
       body = CustomerPage ''Customers fetched successfully'' (take 10 (customers db))
                (Pagination (int (length (customers db))) (Some 1) (Some 10)
                   (Some \<lceil>real (length (customers db)) / 10\<rceil>))\<rparr>, db)"
proof (intro conjI)
  show "get_customers None limit_q search_q db = get_customers (Some 1) limit_q search_q db"
    by (simp add: get_customers_def)
  show "get_customers page_q None search_q db = get_customers page_q (Some 10) search_q db"
    by (simp add: get_customers_def)
  show "get_customers page_q limit_q None db = get_customers page_q limit_q (Some []) db"
    by (simp add: get_customers_def)
  have "ceil_div (int (length (customers db))) 10 =
          Some \<lceil>real (length (customers db)) / 10\<rceil>"
    using ceil_div_ceiling[of 10 "int (length (customers db))"] by simp
  then show "get_customers None None None db =
     (\<lparr>status = 200,
       body = CustomerPage ''Customers fetched successfully'' (take 10 (customers db))
                (Pagination (int (length (customers db))) (Some 1) (Some 10)
                   (Some \<lceil>real (length (customers db)) / 10\<rceil>))\<rparr>, db)"
    by (simp add: get_customers_unfold matching_customers_def limit_offset_def
          limit_accepted_def offset_integer_def js_times_def js_minus_def to_number_small
          js_ceil_div_def)
qed

theorem get_customers_defaults_witness:
  "get_customers None None None sample =
     (\<lparr>status = 200,
       body = CustomerPage ''Customers fetched successfully'' [ann, bob]
                (Pagination 2 (Some 1) (Some 10) (Some 1))\<rparr>, sample)"
proof -
  have c: "\<lceil>(2::real) / 10\<rceil> = 1" by (simp add: ceiling_eq_iff)
  have "get_customers None None None sample =
     (\<lparr>status = 200,
       body = CustomerPage ''Customers fetched successfully'' (take 10 (customers sample))
                (Pagination (int (length (customers sample))) (Some 1) (Some 10)
                   (Some \<lceil>real (length (customers sample)) / 10\<rceil>))\<rparr>, sample)"
    by (rule get_customers_defaults
          [where db = sample, THEN conjunct2, THEN conjunct2, THEN conjunct2])
  then show ?thesis
    using c by (simp add: sample_simps)
qed

subsection \<open>The search\<close>

lemma pattern_compare_percent:
  "pattern_compare (37 # ps) t \<longleftrightarrow> (\<exists>u v. t = u @ v \<and> pattern_compare ps v)"
proof (induction t)
  case Nil
  then show ?case by simp
next
  case (Cons c ts)
  have "pattern_compare (37 # ps) (c # ts) \<longleftrightarrow>
          pattern_compare ps (c # ts) \<or> pattern_compare (37 # ps) ts"
    by simp
  also have "\<dots> \<longleftrightarrow> pattern_compare ps (c # ts) \<or> (\<exists>u v. ts = u @ v \<and> pattern_compare ps v)"
    using Cons.IH by simp
  also have "\<dots> \<longleftrightarrow> (\<exists>u v. c # ts = u @ v \<and> pattern_compare ps v)"
    by (auto simp: Cons_eq_append_conv)
  finally show ?case .
qed

lemma pattern_compare_any: "pattern_compare [37] t"
proof -
  have "t = t @ [] \<and> pattern_compare [] []" by simp
  then have "\<exists>u v. t = u @ v \<and> pattern_compare [] v" by blast
  then show ?thesis by (simp only: pattern_compare_percent)
qed

lemma like_fold_fixed:
  "like_fold d = 37 \<longleftrightarrow> d = 37" "like_fold d = 95 \<longleftrightarrow> d = 95" "like_fold d = 0 \<longleftrightarrow> d = 0"
  by (auto simp: like_fold_def ascii_lower_def)

text \<open>An occurrence of the search string matches it, wildcards in it or not.\<close>

lemma pattern_compare_occurrence:
  "map like_fold w = map like_fold s \<Longrightarrow> pattern_compare ps r
     \<Longrightarrow> pattern_compare (s @ ps) (w @ r)"
proof (induction s arbitrary: w)
  case Nil
  then show ?case by simp
next
  case (Cons a s)
  from Cons.prems(1) obtain b w' where w: "w = b # w'" "like_fold b = like_fold a"
    "map like_fold w' = map like_fold s"
    by (cases w) auto
  have rest: "pattern_compare (s @ ps) (w' @ r)"
    using Cons.IH[OF w(3) Cons.prems(2)] .
  show ?case
  proof (cases "a = 37")
    case True
    have "w = [b] @ (w' @ r) \<or> True" by simp
    have "b # w' @ r = [b] @ (w' @ r) \<and> pattern_compare (s @ ps) (w' @ r)"
      using rest by simp
    then have "\<exists>u v. b # w' @ r = u @ v \<and> pattern_compare (s @ ps) v" by blast
    then have "pattern_compare (37 # s @ ps) (b # w' @ r)"
      by (simp only: pattern_compare_percent)
    then show ?thesis using True w(1) by simp
  next
    case False
    then show ?thesis using w rest by simp
  qed
qed

text \<open>Without wildcards in the search string, only an occurrence matches it.\<close>

lemma pattern_compare_literal:
  assumes "37 \<notin> set s" "95 \<notin> set s"
  shows "pattern_compare (s @ ps) t \<longleftrightarrow>
           (\<exists>w r. t = w @ r \<and> map like_fold w = map like_fold s \<and> pattern_compare ps r)"
  using assms
proof (induction s arbitrary: t)
  case Nil
  then show ?case by simp
next
  case (Cons a s)
  then have a: "a \<noteq> 37" "a \<noteq> 95" and s: "37 \<notin> set s" "95 \<notin> set s"
    by auto
  show ?case
  proof (cases t)
    case Nil
    then show ?thesis using a by simp
  next
    case (Cons c ts)
    have "pattern_compare ((a # s) @ ps) t \<longleftrightarrow>
            like_fold a = like_fold c \<and> pattern_compare (s @ ps) ts"
      using a Cons by simp
    also have "\<dots> \<longleftrightarrow> like_fold a = like_fold c \<and>
        (\<exists>w r. ts = w @ r \<and> map like_fold w = map like_fold s \<and> pattern_compare ps r)"
      using Cons.IH[OF s] by simp
    also have "\<dots> \<longleftrightarrow>
        (\<exists>w r. t = w @ r \<and> map like_fold w = map like_fold (a # s) \<and> pattern_compare ps r)"
      (is "?L \<longleftrightarrow> ?R")
    proof
      assume ?L
      then obtain w r where "like_fold a = like_fold c" "ts = w @ r"
        "map like_fold w = map like_fold s" "pattern_compare ps r" by blast
      then have "t = (c # w) @ r \<and> map like_fold (c # w) = map like_fold (a # s)
          \<and> pattern_compare ps r"
        using Cons by simp
      then show ?R by blast
    next
      assume ?R
      then obtain w r where wr: "t = w @ r" "map like_fold w = map like_fold (a # s)"
        "pattern_compare ps r"
        by blast
      from wr(2) obtain c' w' where w: "w = c' # w'" "like_fold c' = like_fold a"
        "map like_fold w' = map like_fold s"
        by (cases w) auto
      with wr Cons show ?L by auto
    qed
    finally show ?thesis .
  qed
qed

lemma c_string_no_nul: "0 \<notin> set (c_string t)"
  using set_takeWhileD[of 0 "\<lambda>c. c \<noteq> 0" t] by (auto simp: c_string_def)

lemma c_string_id: "0 \<notin> set t \<Longrightarrow> c_string t = t"
  by (induction t) (auto simp: c_string_def)

lemma c_string_pattern: "0 \<notin> set s \<Longrightarrow> c_string (37 # s @ [37]) = 37 # s @ [37]"
  by (rule c_string_id) simp

lemma contains_like_altdef:
  "contains_like s t \<longleftrightarrow>
     (\<exists>u w r. c_string t = u @ w @ r \<and> map like_fold w = map like_fold s)"
proof
  assume "contains_like s t"
  then obtain ps ss where "map like_fold (c_string t) = ps @ map like_fold s @ ss"
    by (auto simp: contains_like_def sublist_def)
  then have "\<exists>u v. c_string t = u @ v \<and> ps = map like_fold u
               \<and> map like_fold s @ ss = map like_fold v"
    by (simp only: map_eq_append_conv)
  then obtain u v where uv: "c_string t = u @ v" "map like_fold v = map like_fold s @ ss"
    by metis
  from uv(2) have "\<exists>w r. v = w @ r \<and> map like_fold s = map like_fold w
               \<and> ss = map like_fold r"
    by (simp only: map_eq_append_conv)
  then obtain w r where "v = w @ r" "map like_fold w = map like_fold s"
    by metis
  with uv show "\<exists>u w r. c_string t = u @ w @ r \<and> map like_fold w = map like_fold s"
    by blast
next
  assume "\<exists>u w r. c_string t = u @ w @ r \<and> map like_fold w = map like_fold s"
  then obtain u w r where "c_string t = u @ w @ r" "map like_fold w = map like_fold s"
    by blast
  then have "map like_fold (c_string t) = map like_fold u @ map like_fold s @ map like_fold r"
    by simp
  then show "contains_like s t"
    unfolding contains_like_def sublist_def by blast
qed

lemma contains_like_no_nul: "contains_like s t \<Longrightarrow> 0 \<notin> set s"
proof
  assume c: "contains_like s t" and z: "0 \<in> set s"
  from c obtain u w r where t: "c_string t = u @ w @ r" and w: "map like_fold w = map like_fold s"
    by (auto simp: contains_like_altdef)
  from z have "like_fold 0 \<in> like_fold ` set s" by (rule imageI)
  then have "0 \<in> set (map like_fold s)" by (simp add: like_fold_def ascii_lower_def)
  then have "0 \<in> set (map like_fold w)" using w by simp
  then have "0 \<in> set w" by (auto simp: like_fold_fixed)
  then have "0 \<in> set (c_string t)" using t by simp
  then show False using c_string_no_nul by blast
qed

lemma contains_like_matches:
  assumes "contains_like s t"
  shows "like (37 # s @ [37]) t"
proof -
  from assms obtain u w r where t: "c_string t = u @ w @ r"
    and w: "map like_fold w = map like_fold s"
    by (auto simp: contains_like_altdef)
  have "pattern_compare (s @ [37]) (w @ r)"
    using pattern_compare_occurrence[OF w pattern_compare_any] .
  then have "\<exists>x y. c_string t = x @ y \<and> pattern_compare (s @ [37]) y"
    using t by blast
  then have "pattern_compare (37 # s @ [37]) (c_string t)"
    by (simp only: pattern_compare_percent)
  then show ?thesis
    using c_string_pattern[OF contains_like_no_nul[OF assms]] by (simp add: like_def)
qed

lemma like_search:
  assumes "0 \<notin> set s" "37 \<notin> set s" "95 \<notin> set s"
  shows "like (37 # s @ [37]) t \<longleftrightarrow> contains_like s t"
proof -
  have "like (37 # s @ [37]) t \<longleftrightarrow> pattern_compare (37 # s @ [37]) (c_string t)"
    using c_string_pattern[OF assms(1)] by (simp add: like_def)
  also have "\<dots> \<longleftrightarrow> (\<exists>u v. c_string t = u @ v \<and> pattern_compare (s @ [37]) v)"
    by (rule pattern_compare_percent)
  also have "\<dots> \<longleftrightarrow> (\<exists>u v. c_string t = u @ v \<and>
          (\<exists>w r. v = w @ r \<and> map like_fold w = map like_fold s \<and> pattern_compare [37] r))"
    by (simp only: pattern_compare_literal[OF assms(2,3)])
  also have "\<dots> \<longleftrightarrow> (\<exists>u w r. c_string t = u @ w @ r \<and> map like_fold w = map like_fold s)"
    by (simp only: pattern_compare_any) blast
  finally show ?thesis by (simp only: contains_like_altdef)
qed

lemma contains_like_plain:
  assumes "plain s" "plain t"
  shows "contains_like s t \<longleftrightarrow> sublist (map ascii_lower s) (map ascii_lower t)"
proof -
  have "0 \<notin> set t" using assms(2) by (auto simp: plain_def list_all_iff)
  then have c: "c_string t = t" by (rule c_string_id)
  have "map like_fold s = map ascii_lower s" "map like_fold t = map ascii_lower t"
    using assms by (auto simp: plain_def list_all_iff like_fold_def)
  then show ?thesis by (simp only: contains_like_def c)
qed

lemma contains_search_plain:
  assumes "plain s" "plain_customer c"
  shows "contains_search_like s c \<longleftrightarrow> contains_search s c"
  using assms
  by (simp add: contains_search_like_def contains_search_def plain_customer_def
        contains_like_plain)

lemma filter_cong_set: "(\<And>x. x \<in> set xs \<Longrightarrow> P x = Q x) \<Longrightarrow> filter P xs = filter Q xs"
  by (induction xs) auto

lemma get_customers_search:
  assumes "s \<noteq> []"
  shows "fst (get_customers page_q limit_q (Some s) db) =
         fst (get_customers page_q limit_q None
                (db\<lparr>customers := matching_customers (Some s) db\<rparr>))"
  using assms
  by (simp add: get_customers_unfold Let_def matching_customers_def split: option.splits)

lemma bare_listing:
  "get_customers None None search_q db =
     (\<lparr>status = 200,
       body = CustomerPage ''Customers fetched successfully''
                (take 10 (matching_customers search_q db))
                (Pagination (int (length (matching_customers search_q db))) (Some 1) (Some 10)
                   (ceil_div (int (length (matching_customers search_q db))) 10))\<rparr>, db)"
  by (simp add: get_customers_unfold limit_offset_def limit_accepted_def offset_integer_def
        js_times_def js_minus_def to_number_small js_ceil_div_def)

lemma sample_texts:
  "first_name ann = [65, 110, 110]" "last_name ann = [76, 101, 101]"
  "phone_number ann = [53, 53, 53, 49, 50, 51, 52]"
  "first_name bob = [66, 111, 98]" "last_name bob = [82, 97, 121]"
  "phone_number bob = [55, 55, 55, 48, 48, 48, 48]"
  "first_name nul_row = [65, 0, 98, 99]" "last_name nul_row = [76, 101, 101]"
  "phone_number nul_row = [53, 53, 53, 49, 50, 51, 52]"
  "first_name fffd_row = [65533]" "last_name fffd_row = [76, 101, 101]"
  "phone_number fffd_row = [53, 53, 53, 49, 50, 51, 52]"
  by (simp_all add: ann_def bob_def nul_row_def fffd_row_def chars_def)

text \<open>
  C5 as stated fails on the code, also with the case of letters set aside as the
  specification does. The search string goes into the LIKE pattern as it is, and LIKE
  takes pattern and field as C strings:
  \<^item> the search \<open>%\<close> lists both sample customers, and no field of theirs contains \<open>%\<close>;
  \<^item> so does the search that is one NUL character;
  \<^item> the search \<open>bc\<close> does not list the customer whose first name is \<open>A\<close>, NUL, \<open>bc\<close>;
  \<^item> the search U+FFFE lists the customer whose first name is U+FFFD.
\<close>

theorem search_substring_counterexample:
  "get_customers None None (Some [37]) sample =
     (\<lparr>status = 200,
       body = CustomerPage ''Customers fetched successfully'' [ann, bob]
                (Pagination 2 (Some 1) (Some 10) (Some 1))\<rparr>, sample) \<and>
   filter (contains_search [37]) [ann, bob] = [] \<and>
   get_customers None None (Some [0]) sample =
     (\<lparr>status = 200,
       body = CustomerPage ''Customers fetched successfully'' [ann, bob]
                (Pagination 2 (Some 1) (Some 10) (Some 1))\<rparr>, sample) \<and>
   filter (contains_search [0]) [ann, bob] = [] \<and>
   get_customers None None (Some (chars ''bc'')) (only nul_row) =
     (\<lparr>status = 200,
       body = CustomerPage ''Customers fetched successfully'' []
                (Pagination 0 (Some 1) (Some 10) (Some 0))\<rparr>, only nul_row) \<and>
   filter (contains_search (chars ''bc'')) [nul_row] = [nul_row] \<and>
   get_customers None None (Some [65534]) (only fffd_row) =
     (\<lparr>status = 200,
       body = CustomerPage ''Customers fetched successfully'' [fffd_row]
                (Pagination 1 (Some 1) (Some 10) (Some 1))\<rparr>, only fffd_row) \<and>
   filter (contains_search [65534]) [fffd_row] = []"
proof (intro conjI)
  have m1: "matching_customers (Some [37]) sample = [ann, bob]"
    by (simp add: matching_customers_def sample_simps where_like_def like_def c_string_def
          sample_texts)
  show "get_customers None None (Some [37]) sample =
     (\<lparr>status = 200,
       body = CustomerPage ''Customers fetched successfully'' [ann, bob]
                (Pagination 2 (Some 1) (Some 10) (Some 1))\<rparr>, sample)"
    by (simp add: bare_listing m1 ceil_div_def)
  show "filter (contains_search [37]) [ann, bob] = []"
    by (simp add: contains_search_def sample_texts ascii_lower_def sublist_code)
  have m2: "matching_customers (Some [0]) sample = [ann, bob]"
    by (simp add: matching_customers_def sample_simps where_like_def like_def c_string_def
          sample_texts)
  show "get_customers None None (Some [0]) sample =
     (\<lparr>status = 200,
       body = CustomerPage ''Customers fetched successfully'' [ann, bob]
                (Pagination 2 (Some 1) (Some 10) (Some 1))\<rparr>, sample)"
    by (simp add: bare_listing m2 ceil_div_def)
  show "filter (contains_search [0]) [ann, bob] = []"
    by (simp add: contains_search_def sample_texts ascii_lower_def sublist_code)
  have m3: "matching_customers (Some (chars ''bc'')) (only nul_row) = []"
    by (simp add: matching_customers_def only_def where_like_def like_def c_string_def
          sample_texts chars_def like_fold_def ascii_lower_def)
  show "get_customers None None (Some (chars ''bc'')) (only nul_row) =
     (\<lparr>status = 200,
       body = CustomerPage ''Customers fetched successfully'' []
                (Pagination 0 (Some 1) (Some 10) (Some 0))\<rparr>, only nul_row)"
    by (simp add: bare_listing m3 ceil_div_def)
  show "filter (contains_search (chars ''bc'')) [nul_row] = [nul_row]"
    by (simp add: contains_search_def sample_texts chars_def ascii_lower_def sublist_code)
  have m4: "matching_customers (Some [65534]) (only fffd_row) = [fffd_row]"
    by (simp add: matching_customers_def only_def where_like_def like_def c_string_def
          sample_texts like_fold_def ascii_lower_def)
  show "get_customers None None (Some [65534]) (only fffd_row) =
     (\<lparr>status = 200,
       body = CustomerPage ''Customers fetched successfully'' [fffd_row]
                (Pagination 1 (Some 1) (Some 10) (Some 1))\<rparr>, only fffd_row)"
    by (simp add: bare_listing m4 ceil_div_def)
  show "filter (contains_search [65534]) [fffd_row] = []"
    by (simp add: contains_search_def sample_texts ascii_lower_def sublist_code)
qed

text \<open>
  C5 amended. For every non-empty search string the listing works on rows among which
  are all those one of whose three fields, up to its first NUL character, contains the
  search string as LIKE compares characters (ASCII letters without their case, U+FFFE
  and U+FFFF as U+FFFD). When the search string has no \<open>%\<close>, no \<open>_\<close> and no NUL, the
  listing works on exactly these rows: it answers as the listing without a search does
  on the table of these rows. When moreover neither the search string nor a stored
  field has a NUL, U+FFFE or U+FFFF, as with the search \<open>555\<close>, these are exactly the rows
  one of whose three fields contains the search string, the case of ASCII letters aside.
\<close>

theorem search_like:
  assumes "s \<noteq> []"
  shows "filter (contains_search_like s) (matching_customers (Some s) db)
           = filter (contains_search_like s) (customers db) \<and>
         get_customers page_q limit_q (Some s) db =
           (fst (get_customers page_q limit_q None
                   (db\<lparr>customers := matching_customers (Some s) db\<rparr>)), db) \<and>
         (0 \<notin> set s \<and> 37 \<notin> set s \<and> 95 \<notin> set s \<longrightarrow>
            matching_customers (Some s) db = filter (contains_search_like s) (customers db) \<and>
            get_customers page_q limit_q (Some s) db =
              (fst (get_customers page_q limit_q None
                      (db\<lparr>customers := filter (contains_search_like s) (customers db)\<rparr>)),
               db) \<and>
            get_customers None None (Some s) db =
              (\<lparr>status = 200,
                body = CustomerPage ''Customers fetched successfully''
                         (take 10 (filter (contains_search_like s) (customers db)))
                         (Pagination
                            (int (length (filter (contains_search_like s) (customers db))))
                            (Some 1) (Some 10)
                            (Some \<lceil>real (length (filter (contains_search_like s)
                                                  (customers db))) / 10\<rceil>))\<rparr>, db)) \<and>
         (37 \<notin> set s \<and> 95 \<notin> set s \<and> plain s \<and> list_all plain_customer (customers db) \<longrightarrow>
            matching_customers (Some s) db = filter (contains_search s) (customers db) \<and>
            get_customers page_q limit_q (Some s) db =
              (fst (get_customers page_q limit_q None
                      (db\<lparr>customers := filter (contains_search s) (customers db)\<rparr>)), db) \<and>
            get_customers None None (Some s) db =
              (\<lparr>status = 200,
                body = CustomerPage ''Customers fetched successfully''
                         (take 10 (filter (contains_search s) (customers db)))
                         (Pagination
                            (int (length (filter (contains_search s) (customers db))))
                            (Some 1) (Some 10)
                            (Some \<lceil>real (length (filter (contains_search s)
                                                  (customers db))) / 10\<rceil>))\<rparr>, db))"
proof (intro conjI impI)
  let ?pat = "37 # s @ [37]"
  have m: "matching_customers (Some s) db = filter (where_like ?pat) (customers db)"
    using assms by (simp add: matching_customers_def)
  have sup: "contains_search_like s c \<Longrightarrow> where_like ?pat c" for c
    by (auto simp: contains_search_like_def where_like_def contains_like_matches)
  have bare: "get_customers None None (Some s) db =
              (\<lparr>status = 200,
                body = CustomerPage ''Customers fetched successfully''
                         (take 10 (matching_customers (Some s) db))
                         (Pagination (int (length (matching_customers (Some s) db)))
                            (Some 1) (Some 10)
                            (Some \<lceil>real (length (matching_customers (Some s) db)) / 10\<rceil>))\<rparr>,
               db)"
    using ceil_div_ceiling[of 10 "int (length (matching_customers (Some s) db))"]
    by (simp add: bare_listing)
  show "filter (contains_search_like s) (matching_customers (Some s) db)
          = filter (contains_search_like s) (customers db)"
    unfolding m filter_filter by (rule filter_cong_set) (use sup in blast)
  show g: "get_customers page_q limit_q (Some s) db =
           (fst (get_customers page_q limit_q None
                   (db\<lparr>customers := matching_customers (Some s) db\<rparr>)), db)"
    using get_customers_search[OF assms, of page_q limit_q db]
      get_customers_snd[of page_q limit_q "Some s" db]
    by (simp add: prod_eq_iff)
  {
    assume a: "0 \<notin> set s \<and> 37 \<notin> set s \<and> 95 \<notin> set s"
    then have "where_like ?pat = contains_search_like s"
      by (intro ext) (simp add: where_like_def contains_search_like_def like_search)
    then show e: "matching_customers (Some s) db
                    = filter (contains_search_like s) (customers db)"
      using m by simp
    show "get_customers page_q limit_q (Some s) db =
              (fst (get_customers page_q limit_q None
                      (db\<lparr>customers := filter (contains_search_like s) (customers db)\<rparr>)),
               db)"
      using g e by simp
    show "get_customers None None (Some s) db =
              (\<lparr>status = 200,
                body = CustomerPage ''Customers fetched successfully''
                         (take 10 (filter (contains_search_like s) (customers db)))
                         (Pagination
                            (int (length (filter (contains_search_like s) (customers db))))
                            (Some 1) (Some 10)
                            (Some \<lceil>real (length (filter (contains_search_like s)
                                                  (customers db))) / 10\<rceil>))\<rparr>, db)"
      using bare e by simp
  }
  {
    assume a: "37 \<notin> set s \<and> 95 \<notin> set s \<and> plain s \<and> list_all plain_customer (customers db)"
    then have z: "0 \<notin> set s" by (auto simp: plain_def list_all_iff)
    with a have "where_like ?pat = contains_search_like s"
      by (intro ext) (simp add: where_like_def contains_search_like_def like_search)
    then have "matching_customers (Some s) db
                 = filter (contains_search_like s) (customers db)"
      using m by simp
    also have "\<dots> = filter (contains_search s) (customers db)"
      by (rule filter_cong_set) (use a in \<open>simp add: contains_search_plain list_all_iff\<close>)
    finally show e: "matching_customers (Some s) db
                       = filter (contains_search s) (customers db)" .
    show "get_customers page_q limit_q (Some s) db =
              (fst (get_customers page_q limit_q None
                      (db\<lparr>customers := filter (contains_search s) (customers db)\<rparr>)), db)"
      using g e by simp
    show "get_customers None None (Some s) db =
              (\<lparr>status = 200,
                body = CustomerPage ''Customers fetched successfully''
                         (take 10 (filter (contains_search s) (customers db)))
                         (Pagination
                            (int (length (filter (contains_search s) (customers db))))
                            (Some 1) (Some 10)
                            (Some \<lceil>real (length (filter (contains_search s)
                                                  (customers db))) / 10\<rceil>))\<rparr>, db)"
      using bare e by simp
  }
qed

theorem search_like_witness:
  "get_customers None None (Some (chars ''555'')) sample =
     (\<lparr>status = 200,
       body = CustomerPage ''Customers fetched successfully'' [ann]
                (Pagination 1 (Some 1) (Some 10) (Some 1))\<rparr>, sample) \<and>
   filter (contains_search (chars ''555'')) (customers sample) = [ann] \<and>
   matching_customers (Some (chars ''555'')) sample
     = filter (contains_search_like (chars ''555'')) (customers sample)"
proof -
  have s: "chars ''555'' = [53, 53, 53]" by (simp add: chars_def)
  have h: "chars ''555'' \<noteq> []" by simp
  have a: "37 \<notin> set (chars ''555'') \<and> 95 \<notin> set (chars ''555'') \<and> plain (chars ''555'')
      \<and> list_all plain_customer (customers sample)"
    by (simp add: s plain_def plain_customer_def sample_simps sample_texts)
  have b: "0 \<notin> set (chars ''555'') \<and> 37 \<notin> set (chars ''555'') \<and> 95 \<notin> set (chars ''555'')"
    by (simp add: s)
  have f: "filter (contains_search (chars ''555'')) (customers sample) = [ann]"
    by (simp add: s contains_search_def sample_simps sample_texts ascii_lower_def
          sublist_code)
  have c: "\<lceil>real (length [ann]) / 10\<rceil> = 1" by (simp add: ceiling_eq_iff)
  note t = search_like[OF h, where db = sample and page_q = None and limit_q = None]
  from t a have "get_customers None None (Some (chars ''555'')) sample =
              (\<lparr>status = 200,
                body = CustomerPage ''Customers fetched successfully''
                         (take 10 (filter (contains_search (chars ''555'')) (customers sample)))
                         (Pagination
                            (int (length (filter (contains_search (chars ''555''))
                                            (customers sample))))
                            (Some 1) (Some 10)
                            (Some \<lceil>real (length (filter (contains_search (chars ''555''))
                                                  (customers sample))) / 10\<rceil>))\<rparr>, sample)"
    by blast
  then have r: "get_customers None None (Some (chars ''555'')) sample =
     (\<lparr>status = 200,
       body = CustomerPage ''Customers fetched successfully'' [ann]
                (Pagination 1 (Some 1) (Some 10) (Some 1))\<rparr>, sample)"
    by (simp only: f c) simp
  from t b have "matching_customers (Some (chars ''555'')) sample
     = filter (contains_search_like (chars ''555'')) (customers sample)"
    by blast
  with r f show ?thesis by blast
qed

subsection \<open>Updating a customer that does not exist\<close>

text \<open>
  C6: an update request with three non-empty fields for an id that no customer has is
  answered with status 404, and the database after it is the database before it.
\<close>

theorem put_customer_unknown_id:
  assumes "i \<notin> c_id ` set (customers db)"
    and "fname \<noteq> []" "lname \<noteq> []" "phone \<noteq> []"
  shows "put_customer i (Some fname) (Some lname) (Some phone) db =
           (\<lparr>status = 404,
             body = Failure ''Customer not found or no changes made.''
                      ''An unknown error occurred.''\<rparr>,
            db)"
proof -
  have no: "\<forall>c \<in> set (customers db). \<not> c_id c = i"
    using assms(1) by auto
  have ex: "\<not> list_ex (\<lambda>c. c_id c = i) (customers db)"
    using no by (simp add: list_ex_iff)
  have upd: "update_customer db fname lname phone i = Inr (0, db)"
    using ex map_no_hit[OF no] filter_no_hit[OF no]
    by (simp add: update_customer_def)
  show ?thesis
    using assms(2-4) by (simp add: put_customer_def upd sendError_def)
qed

theorem put_customer_unknown_id_witness:
  "7 \<notin> c_id ` set (customers sample) \<and>
   put_customer 7 (Some (chars ''Cy'')) (Some (chars ''Fox'')) (Some (chars ''5551234''))
       sample =
     (\<lparr>status = 404,
       body = Failure ''Customer not found or no changes made.''
                ''An unknown error occurred.''\<rparr>,
      sample)"
proof -
  have h: "7 \<notin> c_id ` set (customers sample)"
    by (simp add: sample_simps ann_def bob_def)
  have n: "chars ''Cy'' \<noteq> []" "chars ''Fox'' \<noteq> []" "chars ''5551234'' \<noteq> []"
    by simp_all
  from h put_customer_unknown_id[OF h n] show ?thesis by (rule conjI)
qed

subsection \<open>Addresses\<close>

text \<open>
  C7: an address create request with four non-empty fields succeeds for every customer
  id, whether a customer has it or not: the answer is 201 with an id no stored address
  has, and the row is appended with the customer id as given.
\<close>

theorem post_address_any_customer_id:
  assumes "d \<noteq> []" "c \<noteq> []" "s \<noteq> []" "p \<noteq> []"
  shows "\<exists>new. new \<notin> a_id ` set (addresses db) \<and>
           post_address cid (Some d) (Some c) (Some s) (Some p) db =
             (\<lparr>status = 201, body = Created ''Address added successfully'' new\<rparr>,
              db\<lparr>addresses := addresses db @
                    [\<lparr>a_id = new, customer_id = cid, address_details = d,
                      city = c, state = s, pin_code = p\<rparr>],
                 addresses_seq := new\<rparr>)"
proof -
  let ?new = "next_rowid (addresses_seq db) (map a_id (addresses db))"
  have "?new \<notin> a_id ` set (addresses db)"
    using next_rowid_fresh[of "addresses_seq db" "map a_id (addresses db)"] by simp
  moreover have "post_address cid (Some d) (Some c) (Some s) (Some p) db =
             (\<lparr>status = 201, body = Created ''Address added successfully'' ?new\<rparr>,
              db\<lparr>addresses := addresses db @
                    [\<lparr>a_id = ?new, customer_id = cid, address_details = d,
                      city = c, state = s, pin_code = p\<rparr>],
                 addresses_seq := ?new\<rparr>)"
    using assms
    by (simp add: post_address_def insert_address_def foreign_keys_def Let_def)
  ultimately show ?thesis by blast
qed

theorem post_address_any_customer_id_witness:
  "7 \<notin> c_id ` set (customers sample) \<and>
   (\<exists>new. new \<notin> a_id ` set (addresses sample) \<and>
      post_address 7 (Some (chars ''9 Elm Rd'')) (Some (chars ''Goa'')) (Some (chars ''GA'')) (Some (chars ''403001'')) sample =
        (\<lparr>status = 201, body = Created ''Address added successfully'' new\<rparr>,
         sample\<lparr>addresses := addresses sample @
                  [\<lparr>a_id = new, customer_id = 7, address_details = chars ''9 Elm Rd'',
                    city = chars ''Goa'', state = chars ''GA'',
                    pin_code = chars ''403001''\<rparr>],
                addresses_seq := new\<rparr>))"
proof -
  have h: "7 \<notin> c_id ` set (customers sample)"
    by (simp add: sample_simps ann_def bob_def)
  have n: "chars ''9 Elm Rd'' \<noteq> []" "chars ''Goa'' \<noteq> []" "chars ''GA'' \<noteq> []"
    "chars ''403001'' \<noteq> []"
    by simp_all
  from h post_address_any_customer_id[OF n, of sample 7] show ?thesis by (rule conjI)
qed

text \<open>
  C9: an address update request with four non-empty fields for the id of a stored address
  is answered with 200 and rewrites the four text fields of that one row. The row keeps
  its id and its customer id, every other address row is as before, and so are the
  customers table and the two counters.
\<close>

theorem put_address_frame:
  assumes "distinct (map a_id (addresses db))"
    and "n < length (addresses db)" "a_id (addresses db ! n) = i"
    and "d \<noteq> []" "c \<noteq> []" "s \<noteq> []" "p \<noteq> []"
  shows "put_address i (Some d) (Some c) (Some s) (Some p) db =
           (\<lparr>status = 200, body = Message ''Address updated successfully''\<rparr>,
            db\<lparr>addresses := (addresses db)
                  [n := \<lparr>a_id = i, customer_id = customer_id (addresses db ! n),
                         address_details = d, city = c, state = s, pin_code = p\<rparr>]\<rparr>)"
proof -
  let ?f = "\<lambda>a. a\<lparr>address_details := d, city := c, state := s, pin_code := p\<rparr>"
  have hit: "filter (\<lambda>a. a_id a = i) (addresses db) \<noteq> []"
    using filter_hit_nonempty[of n "addresses db" "\<lambda>a. a_id a = i"] assms(2,3) by simp
  have upd: "map (\<lambda>a. if a_id a = i then ?f a else a) (addresses db)
               = (addresses db)[n := ?f (addresses db ! n)]"
    by (rule map_update_distinct[OF assms(1-3)])
  have row: "?f (addresses db ! n) =
               \<lparr>a_id = i, customer_id = customer_id (addresses db ! n),
                address_details = d, city = c, state = s, pin_code = p\<rparr>"
    using assms(3) by simp
  show ?thesis
    using assms(4-7) hit by (simp add: put_address_def update_address_def upd row)
qed

theorem put_address_frame_witness:
  "put_address 1 (Some (chars ''9 Elm Rd'')) (Some (chars ''Goa'')) (Some (chars ''GA'')) (Some (chars ''403001'')) sample =
     (\<lparr>status = 200, body = Message ''Address updated successfully''\<rparr>,
      sample\<lparr>addresses :=
               [\<lparr>a_id = 1, customer_id = 1, address_details = chars ''9 Elm Rd'',
                 city = chars ''Goa'', state = chars ''GA'',
                 pin_code = chars ''403001''\<rparr>]\<rparr>)"
proof -
  have h: "distinct (map a_id (addresses sample))" "0 < length (addresses sample)"
    "a_id (addresses sample ! 0) = 1"
    by (simp_all add: sample_simps home_def)
  have n: "chars ''9 Elm Rd'' \<noteq> []" "chars ''Goa'' \<noteq> []" "chars ''GA'' \<noteq> []"
    "chars ''403001'' \<noteq> []"
    by simp_all
  from put_address_frame[OF h n] show ?thesis
    by (simp add: sample_simps home_def)
qed

text \<open>The hypothesis of C9 holds of every database the service builds: ids stay distinct.\<close>

lemma map_key_update:
  "(\<And>x. k (f x) = k x) \<Longrightarrow> map (k \<circ> (\<lambda>x. if P x then f x else x)) xs = map k xs"
  by (induction xs) auto

lemma handle_address_ids_distinct:
  assumes "distinct (map a_id (addresses db))"
  shows "distinct (map a_id (addresses (snd (handle r db))))"
proof (cases r)
  case (PostAddress i d c s p)
  have "next_rowid (addresses_seq db) (map a_id (addresses db)) \<notin> a_id ` set (addresses db)"
    using next_rowid_fresh[of "addresses_seq db" "map a_id (addresses db)"] by simp
  then show ?thesis
    using assms PostAddress
    by (simp add: post_address_def insert_address_def foreign_keys_def Let_def)
next
  case (PutAddress i d c s p)
  have eq: "map (a_id \<circ> (\<lambda>a. if a_id a = i
            then a\<lparr>address_details := the d, city := the c, state := the s, pin_code := the p\<rparr>
            else a)) (addresses db) = map a_id (addresses db)"
    by (rule map_key_update) simp
  show ?thesis
    using assms PutAddress by (simp add: put_address_def update_address_def eq)
next
  case (DeleteAddress i)
  then show ?thesis
    using assms by (simp add: delete_address_route_def delete_address_def distinct_map_filter)
next
  case (DeleteCustomer i)
  then show ?thesis
    using assms delete_customer_route_addresses[of i db] by simp
next
  case (PostCustomer f l p)
  then show ?thesis
    using assms
    by (simp add: post_customer_def insert_customer_def Let_def)
next
  case (PutCustomer i f l p)
  then show ?thesis
    using assms by (simp add: put_customer_def update_customer_def)
next
  case (GetCustomers pg lm s)
  then show ?thesis using assms by (simp add: get_customers_snd)
next
  case (GetCustomer i)
  then show ?thesis
    using assms by (simp add: get_customer_def select_customer_def split: list.splits)
next
  case (GetAddresses i)
  then show ?thesis using assms by (simp add: get_addresses_def select_addresses_def)
qed

lemma serve_address_ids_distinct:
  "distinct (map a_id (addresses db)) \<Longrightarrow> distinct (map a_id (addresses (serve rs db)))"
  by (induction rs arbitrary: db) (simp_all add: handle_address_ids_distinct)

subsection \<open>No empty text is ever stored\<close>











end
